theory Spec2Isabelle
  imports Complex_Main "HOL-Library.Sublist"
begin

section \<open>Common modelling devices\<close>

text \<open>
  The repository is a set of Python monitors (packets, connections, files, processes)
  that share one alert sink.  Python \<open>str\<close> is modelled as \<^typ>\<open>string\<close>, one
  \<^typ>\<open>char\<close> for one character of the Python string, so that \<open>len\<close> and slices
  count what Python counts; the model covers texts whose characters fit in eight bits.
  The two pictographs of the program's output do not; each is a fixed string that no
  operation of the program measures or cuts.  Python \<open>int\<close> process ids and ports are
  \<^typ>\<open>nat\<close> (they are never negative), and the readings of \<open>time.time()\<close> and the
  percentages of \<open>psutil\<close> are \<^typ>\<open>real\<close>.  The wall clock is an input: each
  operation receives the reading of \<open>time.time()\<close> it takes and the text
  \<open>datetime.now().strftime(...)\<close> produces for its log lines.
\<close>

subsection \<open>Exceptions\<close>

datatype exn =
    NoSuchProcess | AccessDenied | ZombieProcess
  | TypeError | AttributeError | OSError

subsection \<open>The outside world as a trace\<close>

text \<open>
  Every effect of the program on its environment is appended to a chronological trace:
  a line printed on the terminal, a line appended to a file, and the three operations
  of the alert channels, each recorded with its outcome (\<open>None\<close> when it succeeded,
  the exception it raised otherwise).  \<open>Print\<close> and \<open>Append\<close> record writes that took
  place.
\<close>

datatype io =
    Print string
  | Append string string
  | Bell "exn option"
  | Paplay "exn option"
  | Popup string string "exn option"
  | Callback string string

type_synonym world = "io list"

text \<open>The lines appended to one file, in order.\<close>

fun file_lines :: "string \<Rightarrow> world \<Rightarrow> string list" where
  "file_lines f [] = []"
| "file_lines f (Append g l # w) = (if g = f then l # file_lines f w else file_lines f w)"
| "file_lines f (_ # w) = file_lines f w"

text \<open>The pop-ups attempted, with title, message and outcome; and the bells attempted.\<close>

fun popups :: "world \<Rightarrow> (string \<times> string \<times> exn option) list" where
  "popups [] = []"
| "popups (Popup m t r # w) = (m, t, r) # popups w"
| "popups (_ # w) = popups w"

fun bells :: "world \<Rightarrow> exn option list" where
  "bells [] = []"
| "bells (Bell r # w) = r # bells w"
| "bells (_ # w) = bells w"

text \<open>
  The environment decides, from what has happened so far, whether an operation fails:
  \<open>sys.stdout.write('\a')\<close> with its flush, \<open>subprocess.run(['paplay', ...])\<close>,
  \<open>subprocess.Popen(['powershell.exe', ...])\<close>, a \<open>print\<close> of a text on the terminal,
  and opening a file for appending and writing a line to it.  The bell and \<open>print\<close>
  both write to \<open>sys.stdout\<close>; an environment whose terminal is broken fails both.
  The alert system and the monitors built on it (files, processes) consult the
  environment for every write; the packet and the connection monitor, whose own sinks
  are not the subject of any statement below, append their writes to the trace.
\<close>

record env =
  stdout_bell :: "world \<Rightarrow> exn option"
  run_paplay :: "world \<Rightarrow> exn option"
  popen_powershell :: "world \<Rightarrow> exn option"
  stdout_print :: "string \<Rightarrow> world \<Rightarrow> exn option"
  file_append :: "string \<Rightarrow> string \<Rightarrow> world \<Rightarrow> exn option"

text \<open>
  A statement that may raise: the exception, if any, and the trace when it stops.
  \<open>and_then\<close> runs the next statement unless the first one raised.
\<close>

definition and_then ::
  "exn option \<times> 's \<Rightarrow> ('s \<Rightarrow> exn option \<times> 's) \<Rightarrow> exn option \<times> 's" where
  "and_then r k = (case fst r of None \<Rightarrow> k (snd r) | Some x \<Rightarrow> r)"

definition print_line :: "env \<Rightarrow> string \<Rightarrow> world \<Rightarrow> exn option \<times> world" where
  "print_line e text w =
     (case stdout_print e text w of None \<Rightarrow> (None, w @ [Print text]) | Some x \<Rightarrow> (Some x, w))"

definition append_line :: "env \<Rightarrow> string \<Rightarrow> string \<Rightarrow> world \<Rightarrow> exn option \<times> world" where
  "append_line e path line w =
     (case file_append e path line w of
        None \<Rightarrow> (None, w @ [Append path line])
      | Some x \<Rightarrow> (Some x, w))"

text \<open>
  A \<open>for\<close> loop over a list whose body may raise: an exception that the body does not
  handle leaves the loop, with the state as it is then.
\<close>

fun for_each :: "('a \<Rightarrow> 's \<Rightarrow> exn option \<times> 's) \<Rightarrow> 'a list \<Rightarrow> 's \<Rightarrow> exn option \<times> 's" where
  "for_each f [] s = (None, s)"
| "for_each f (x # xs) s =
     (case f x s of
        (None, s1) \<Rightarrow> for_each f xs s1
      | (Some ex, s1) \<Rightarrow> (Some ex, s1))"

text \<open>The terminal and the log files accept every write.\<close>

definition sinks_work :: "env \<Rightarrow> bool" where
  "sinks_work e =
     ((\<forall>t w. stdout_print e t w = None) \<and> (\<forall>p l w. file_append e p l w = None))"

subsection \<open>Strings\<close>

text \<open>\<open>os.path.join(log_dir, name)\<close> for a relative \<open>name\<close>.\<close>

definition path_join :: "string \<Rightarrow> string \<Rightarrow> string" where
  "path_join d name =
     (if d = [] then name
      else if last d = CHR ''/'' then d @ name
      else d @ ''/'' @ name)"

text \<open>\<open>str(n)\<close> for a non-negative integer: its decimal digits.\<close>

definition digit_char :: "nat \<Rightarrow> char" where
  "digit_char d = char_of (48 + d)"

fun str_nat :: "nat \<Rightarrow> string" where
  "str_nat n = (if n < 10 then [digit_char n] else str_nat (n div 10) @ [digit_char (n mod 10)])"

declare str_nat.simps [simp del]

text \<open>\<open>str(x)\<close> for a value that may be \<open>None\<close>.\<close>

definition str_opt :: "string option \<Rightarrow> string" where
  "str_opt s = (case s of None \<Rightarrow> ''None'' | Some t \<Rightarrow> t)"

definition str_nat_opt :: "nat option \<Rightarrow> string" where
  "str_nat_opt n = (case n of None \<Rightarrow> ''None'' | Some k \<Rightarrow> str_nat k)"

text \<open>\<open>repr\<close> of a list of integers: \<open>[22, 80, 443]\<close>.\<close>

fun join_comma :: "string list \<Rightarrow> string" where
  "join_comma [] = []"
| "join_comma [s] = s"
| "join_comma (s # t # ss) = s @ '', '' @ join_comma (t # ss)"

definition repr_nat_list :: "nat list \<Rightarrow> string" where
  "repr_nat_list ns = ''['' @ join_comma (map str_nat ns) @ '']''"

text \<open>\<open>str.lower()\<close> on ASCII letters.\<close>

definition lower_char :: "char \<Rightarrow> char" where
  "lower_char c =
     (let n = of_char c :: nat in if 65 \<le> n \<and> n \<le> 90 then char_of (n + 32) else c)"

definition lower :: "string \<Rightarrow> string" where
  "lower s = map lower_char s"

text \<open>
  The banner \<open>'=' * 70\<close>, the alarm sign that opens a console alert and the warning
  sign (both in UTF-8), and a newline.
\<close>

definition banner :: string where
  "banner = replicate 70 CHR ''=''"

definition siren :: string where
  "siren = [CHR 0xF0, CHR 0x9F, CHR 0x9A, CHR 0xA8]"

definition warning_sign :: string where
  "warning_sign = [CHR 0xE2, CHR 0x9A, CHR 0xA0, CHR 0xEF, CHR 0xB8, CHR 0x8F]"

definition nl :: string where
  "nl = [CHR 0x0A]"

text \<open>The three \<open>print\<close> calls every alert makes on the terminal.\<close>

definition console_alert :: "string \<Rightarrow> string \<Rightarrow> io list" where
  "console_alert severity message =
     [Print (nl @ banner),
      Print (siren @ '' '' @ severity @ '': '' @ message),
      Print (banner @ nl)]"

text \<open>The line format \<open>[timestamp] [severity] message\<close> of the alert logs.\<close>

definition alert_line :: "string \<Rightarrow> string \<Rightarrow> string \<Rightarrow> string" where
  "alert_line stamp severity message = ''['' @ stamp @ ''] ['' @ severity @ ''] '' @ message"

section \<open>AlertSystem (src/network/alert\_system.py)\<close>

record AlertSystem =
  as_log_dir :: string

definition AlertSystem_init :: "string \<Rightarrow> AlertSystem" where
  "AlertSystem_init d = \<lparr>as_log_dir = d\<rparr>"

text \<open>
  The loop \<open>for i in range(3): sys.stdout.write('\a'); sys.stdout.flush()\<close>: the first
  failing write leaves the loop with its exception.
\<close>

fun ring_bells :: "env \<Rightarrow> nat \<Rightarrow> world \<Rightarrow> exn option \<times> world" where
  "ring_bells e 0 w = (None, w)"
| "ring_bells e (Suc n) w =
     (case stdout_bell e w of
        None \<Rightarrow> ring_bells e n (w @ [Bell None])
      | Some x \<Rightarrow> (Some x, w @ [Bell (Some x)]))"

text \<open>
  \<open>play_alert_sound\<close>: the bells, then \<open>paplay\<close> inside its own \<open>try\<close> whose handler
  passes; the outer handler passes as well, so a failed bell skips \<open>paplay\<close> and
  nothing is raised.
\<close>

definition play_alert_sound :: "env \<Rightarrow> world \<Rightarrow> world" where
  "play_alert_sound e w =
     (case ring_bells e 3 w of
        (Some x, w1) \<Rightarrow> w1
      | (None, w1) \<Rightarrow> w1 @ [Paplay (run_paplay e w1)])"

text \<open>
  \<open>send_desktop_notification\<close>: exclamation marks removed, double quotes turned into
  single ones, the message cut at 200 characters; a failing \<open>Popen\<close> is swallowed.
\<close>

definition clean :: "string \<Rightarrow> string" where
  "clean s = map (\<lambda>c. if c = CHR 0x22 then CHR 0x27 else c) (filter (\<lambda>c. c \<noteq> CHR ''!'') s)"

definition send_desktop_notification :: "env \<Rightarrow> string \<Rightarrow> string \<Rightarrow> world \<Rightarrow> world" where
  "send_desktop_notification e title message w =
     (let clean_title = clean title;
          clean_message = take 200 (clean message)
      in w @ [Popup clean_message clean_title (popen_powershell e w)])"

definition alerts_log :: "AlertSystem \<Rightarrow> string" where
  "alerts_log a = path_join (as_log_dir a) ''alerts.log''"

text \<open>
  \<open>send_alert(message, severity, play_sound, notify)\<close>: the sound, the pop-up, the
  three \<open>print\<close> calls and the line appended to \<open>alerts.log\<close>, in this order.  The
  two helpers swallow their exceptions; the \<open>print\<close> calls and the file write are not
  guarded, so their exceptions leave \<open>send_alert\<close>.
\<close>

definition send_alert ::
  "AlertSystem \<Rightarrow> env \<Rightarrow> string \<Rightarrow> string \<Rightarrow> string \<Rightarrow> bool \<Rightarrow> bool \<Rightarrow> world
     \<Rightarrow> exn option \<times> world" where
  "send_alert a e stamp message severity play_sound notify w =
     (let w1 = (if play_sound then play_alert_sound e w else w);
          w2 = (if notify
                then send_desktop_notification e (siren @ '' '' @ severity)
                       (if length message > 200 then take 200 message @ ''...'' else message) w1
                else w1)
      in and_then (print_line e (nl @ banner) w2) (\<lambda>w3.
         and_then (print_line e (siren @ '' '' @ severity @ '': '' @ message) w3) (\<lambda>w4.
         and_then (print_line e (banner @ nl) w4) (\<lambda>w5.
         append_line e (alerts_log a) (alert_line stamp severity message) w5))))"

text \<open>
  Three environments: one in which nothing fails; one in which the bell, the sound
  player and the pop-up all fail while the terminal prints and the files take their
  lines; and one whose terminal is broken, so that the bell and \<open>print\<close> both fail.
\<close>

definition healthy :: env where
  "healthy =
     \<lparr>stdout_bell = (\<lambda>_. None), run_paplay = (\<lambda>_. None), popen_powershell = (\<lambda>_. None),
      stdout_print = (\<lambda>_ _. None), file_append = (\<lambda>_ _ _. None)\<rparr>"

definition all_channels_fail :: env where
  "all_channels_fail =
     \<lparr>stdout_bell = (\<lambda>_. Some OSError), run_paplay = (\<lambda>_. Some OSError),
      popen_powershell = (\<lambda>_. Some OSError),
      stdout_print = (\<lambda>_ _. None), file_append = (\<lambda>_ _ _. None)\<rparr>"


section \<open>PacketMonitor (src/network/packet\_monitor.py)\<close>

text \<open>
  One entry of \<open>scan_tracker\<close>, and the monitor.  \<open>alert_callback\<close> records whether a
  callback is installed; its call is an event of the trace.
\<close>

record tracker =
  syn_count :: nat
  ports :: "nat set"
  first_seen :: "real option"
  last_seen :: "real option"

record PacketMonitor =
  pk_log_dir :: string
  alert_callback :: bool
  scan_tracker :: "string \<rightharpoonup> tracker"
  port_scan_threshold :: nat
  time_window :: real

definition tracker_default :: tracker where
  "tracker_default = \<lparr>syn_count = 0, ports = {}, first_seen = None, last_seen = None\<rparr>"

definition PacketMonitor_init :: "string \<Rightarrow> bool \<Rightarrow> PacketMonitor" where
  "PacketMonitor_init d cb =
     \<lparr>pk_log_dir = d, alert_callback = cb, scan_tracker = Map.empty,
      port_scan_threshold = 5, time_window = 10\<rparr>"

text \<open>Reading \<open>self.scan_tracker[src_ip]\<close> of the \<open>defaultdict\<close>.\<close>

definition tracker_of :: "PacketMonitor \<Rightarrow> string \<Rightarrow> tracker" where
  "tracker_of pm src = (case scan_tracker pm src of None \<Rightarrow> tracker_default | Some t \<Rightarrow> t)"

definition packet_alerts_log :: "PacketMonitor \<Rightarrow> string" where
  "packet_alerts_log pm = path_join (pk_log_dir pm) ''packet_alerts.log''"

definition pk_log_alert :: "PacketMonitor \<Rightarrow> string \<Rightarrow> string \<Rightarrow> string \<Rightarrow> world \<Rightarrow> world" where
  "pk_log_alert pm stamp message severity w =
     w @ console_alert severity message
       @ [Append (packet_alerts_log pm) (alert_line stamp severity message)]
       @ (if alert_callback pm then [Callback message severity] else [])"

text \<open>
  The text of a port-scan alert.  \<open>fmt1\<close> is Python's \<open>{:.1f}\<close> rendering of a float,
  a parameter of the model.
\<close>

definition port_scan_message ::
  "(real \<Rightarrow> string) \<Rightarrow> string \<Rightarrow> string \<Rightarrow> nat \<Rightarrow> real \<Rightarrow> nat list \<Rightarrow> string \<Rightarrow> string" where
  "port_scan_message fmt1 src_ip dst_ip unique_ports time_span ports_list protocol =
     ''PORT SCAN DETECTED | Source: '' @ src_ip @ '' -> Target: '' @ dst_ip @ '' | ''
     @ ''Scanned '' @ str_nat unique_ports @ '' ports in '' @ fmt1 time_span @ ''s | ''
     @ ''Ports: '' @ repr_nat_list (take 10 ports_list)
     @ (if length ports_list > 10 then ''...'' else [])
     @ '' | '' @ ''Protocol: '' @ protocol"

text \<open>
  \<open>detect_port_scan(src_ip, dst_ip, dst_port, protocol)\<close>, with the clock reading
  \<open>now\<close>.  The steps are the source's: set \<open>first_seen\<close> when it is \<open>None\<close>, set
  \<open>last_seen\<close>, add the port, replace the entry when the window has passed, and alert
  and clear when the number of ports has reached the threshold.
\<close>

definition detect_port_scan ::
  "(real \<Rightarrow> string) \<Rightarrow> real \<Rightarrow> string \<Rightarrow> string \<Rightarrow> string \<Rightarrow> nat \<Rightarrow> string
     \<Rightarrow> PacketMonitor \<times> world \<Rightarrow> PacketMonitor \<times> world" where
  "detect_port_scan fmt1 now stamp src_ip dst_ip dst_port protocol s =
     (let pm = fst s; w = snd s;
          t0 = tracker_of pm src_ip;
          fs = (case first_seen t0 of None \<Rightarrow> now | Some f \<Rightarrow> f);
          t1 = t0\<lparr>first_seen := Some fs\<rparr>;
          t2 = t1\<lparr>last_seen := Some now, ports := insert dst_port (ports t1)\<rparr>;
          expired = (now - fs > time_window pm);
          t3 = (if expired
                then \<lparr>syn_count = 0, ports = {dst_port}, first_seen = Some now, last_seen = Some now\<rparr>
                else t2);
          fs3 = (if expired then now else fs);
          unique_ports = card (ports t3)
      in if unique_ports \<ge> port_scan_threshold pm
         then
           (let ports_list = sorted_list_of_set (ports t3);
                time_span = now - fs3;
                w' = pk_log_alert pm stamp
                       (port_scan_message fmt1 src_ip dst_ip unique_ports time_span ports_list protocol)
                       ''PORT_SCAN'' w;
                t4 = t3\<lparr>ports := {}, first_seen := Some now\<rparr>
            in (pm\<lparr>scan_tracker := (scan_tracker pm)(src_ip \<mapsto> t4)\<rparr>, w'))
         else (pm\<lparr>scan_tracker := (scan_tracker pm)(src_ip \<mapsto> t3)\<rparr>, w))"

text \<open>A run of calls, one per packet the sniffer hands over.\<close>

record scan_call =
  c_time :: real
  c_stamp :: string
  c_src :: string
  c_dst :: string
  c_port :: nat
  c_proto :: string

definition observe ::
  "(real \<Rightarrow> string) \<Rightarrow> scan_call \<Rightarrow> PacketMonitor \<times> world \<Rightarrow> PacketMonitor \<times> world" where
  "observe fmt1 c s =
     detect_port_scan fmt1 (c_time c) (c_stamp c) (c_src c) (c_dst c) (c_port c) (c_proto c) s"

fun observe_all ::
  "(real \<Rightarrow> string) \<Rightarrow> scan_call list \<Rightarrow> PacketMonitor \<times> world \<Rightarrow> PacketMonitor \<times> world" where
  "observe_all fmt1 [] s = s"
| "observe_all fmt1 (c # cs) s = observe_all fmt1 cs (observe fmt1 c s)"

text \<open>The port-scan alerts written so far.\<close>

definition scan_alerts :: "PacketMonitor \<times> world \<Rightarrow> string list" where
  "scan_alerts s = file_lines (packet_alerts_log (fst s)) (snd s)"

text \<open>The invariant of the tracker between calls.\<close>

definition tracker_inv :: "PacketMonitor \<Rightarrow> bool" where
  "tracker_inv pm =
     (\<forall>src t. scan_tracker pm src = Some t \<longrightarrow>
        finite (ports t) \<and> card (ports t) < port_scan_threshold pm)"


text \<open>
  The entry of one source holds the port set \<open>P\<close> and the window start \<open>f\<close>.
\<close>

definition tracking :: "PacketMonitor \<Rightarrow> string \<Rightarrow> nat set \<Rightarrow> real \<Rightarrow> bool" where
  "tracking pm src P f =
     (case scan_tracker pm src of
        None \<Rightarrow> False
      | Some t \<Rightarrow> ports t = P \<and> first_seen t = Some f)"

text \<open>
  The scenario of the specification: source \<open>10.0.0.5\<close> sends SYN packets to the ports
  22, 80, 443, 3306 and 8080 of one host, one second apart.
\<close>

definition syn_packet :: "real \<Rightarrow> nat \<Rightarrow> scan_call" where
  "syn_packet t p =
     \<lparr>c_time = t, c_stamp = ''2025-01-01 12:00:00'', c_src = ''10.0.0.5'',
      c_dst = ''192.168.1.10'', c_port = p, c_proto = ''TCP''\<rparr>"

definition five_ports :: "scan_call list" where
  "five_ports =
     [syn_packet 0 22, syn_packet 1 80, syn_packet 2 443, syn_packet 3 3306, syn_packet 4 8080]"

text \<open>
  The same state with the ports recorded for one source dropped: the yardstick for
  ``previously accumulated ports are forgotten''.
\<close>

definition forget_ports :: "string \<Rightarrow> PacketMonitor \<times> world \<Rightarrow> PacketMonitor \<times> world" where
  "forget_ports src s =
     ((fst s)\<lparr>scan_tracker := (scan_tracker (fst s))(src \<mapsto> (tracker_of (fst s) src)\<lparr>ports := {}\<rparr>)\<rparr>,
      snd s)"

section \<open>FileAccessMonitor (src/files/file\_monitor.py)\<close>

record FileAccessMonitor =
  fm_log_dir :: string
  fm_alert_system :: AlertSystem
  monitored_paths :: "string list"
  recent_events :: "string \<rightharpoonup> real"
  event_window :: real

definition FileAccessMonitor_init :: "string \<Rightarrow> string list \<Rightarrow> FileAccessMonitor" where
  "FileAccessMonitor_init d paths =
     \<lparr>fm_log_dir = d, fm_alert_system = AlertSystem_init d, monitored_paths = paths,
      recent_events = Map.empty, event_window = 1\<rparr>"

text \<open>A watchdog event: \<open>event.is_directory\<close>, \<open>event.src_path\<close>, \<open>event.dest_path\<close>.\<close>

record fs_event =
  is_directory :: bool
  src_path :: string
  dest_path :: string

definition file_access_log :: "FileAccessMonitor \<Rightarrow> string" where
  "file_access_log fm = path_join (fm_log_dir fm) ''file_access.log''"

definition log_file_event ::
  "env \<Rightarrow> FileAccessMonitor \<Rightarrow> string \<Rightarrow> string \<Rightarrow> string \<Rightarrow> world \<Rightarrow> exn option \<times> world" where
  "log_file_event e fm stamp event_type path w =
     append_line e (file_access_log fm) (''['' @ stamp @ ''] '' @ event_type @ '': '' @ path) w"

text \<open>
  \<open>should_alert(event_key)\<close> with the clock reading \<open>now\<close>: \<open>False\<close> when the key is
  recorded less than \<open>event_window\<close> ago, and the record untouched; otherwise the key is
  recorded at \<open>now\<close>.
\<close>

definition should_alert :: "FileAccessMonitor \<Rightarrow> real \<Rightarrow> string \<Rightarrow> bool \<times> FileAccessMonitor" where
  "should_alert fm current_time event_key =
     (case recent_events fm event_key of
        Some t \<Rightarrow>
          if current_time - t < event_window fm then (False, fm)
          else (True, fm\<lparr>recent_events := (recent_events fm)(event_key \<mapsto> current_time)\<rparr>)
      | None \<Rightarrow> (True, fm\<lparr>recent_events := (recent_events fm)(event_key \<mapsto> current_time)\<rparr>))"

text \<open>
  The four handlers.  Each returns the exception that left it, if any, with the monitor
  and the trace as they are then; none of them guards its writes.
\<close>

definition on_modified ::
  "env \<Rightarrow> real \<Rightarrow> string \<Rightarrow> fs_event \<Rightarrow> FileAccessMonitor \<times> world
     \<Rightarrow> exn option \<times> FileAccessMonitor \<times> world" where
  "on_modified e now stamp ev s =
     (let fm = fst s; w = snd s in
      if is_directory ev then (None, s)
      else
        (case log_file_event e fm stamp ''MODIFIED'' (src_path ev) w of
           (Some x, w1) \<Rightarrow> (Some x, fm, w1)
         | (None, w1) \<Rightarrow>
            (let event_key = ''modified:'' @ src_path ev;
                 r = should_alert fm now event_key
             in if fst r
                then (let q = send_alert (fm_alert_system fm) e stamp
                                (''File modified: '' @ src_path ev) ''FILE_MODIFIED'' False True w1
                      in (fst q, snd r, snd q))
                else (None, snd r, w1))))"

definition on_created ::
  "env \<Rightarrow> real \<Rightarrow> string \<Rightarrow> fs_event \<Rightarrow> FileAccessMonitor \<times> world
     \<Rightarrow> exn option \<times> FileAccessMonitor \<times> world" where
  "on_created e now stamp ev s =
     (let fm = fst s; w = snd s in
      if is_directory ev then (None, s)
      else
        (case log_file_event e fm stamp ''CREATED'' (src_path ev) w of
           (Some x, w1) \<Rightarrow> (Some x, fm, w1)
         | (None, w1) \<Rightarrow>
            (let event_key = ''created:'' @ src_path ev;
                 r = should_alert fm now event_key
             in if fst r
                then (let q = send_alert (fm_alert_system fm) e stamp
                                (''File created: '' @ src_path ev) ''FILE_CREATED'' False True w1
                      in (fst q, snd r, snd q))
                else (None, snd r, w1))))"

definition on_deleted ::
  "env \<Rightarrow> real \<Rightarrow> string \<Rightarrow> fs_event \<Rightarrow> FileAccessMonitor \<times> world
     \<Rightarrow> exn option \<times> FileAccessMonitor \<times> world" where
  "on_deleted e now stamp ev s =
     (let fm = fst s; w = snd s in
      if is_directory ev then (None, s)
      else
        (case log_file_event e fm stamp ''DELETED'' (src_path ev) w of
           (Some x, w1) \<Rightarrow> (Some x, fm, w1)
         | (None, w1) \<Rightarrow>
            (let q = send_alert (fm_alert_system fm) e stamp
                       (''FILE DELETION DETECTED: '' @ src_path ev) ''FILE_DELETED'' True True w1
             in (fst q, fm, snd q))))"

definition on_moved ::
  "env \<Rightarrow> real \<Rightarrow> string \<Rightarrow> fs_event \<Rightarrow> FileAccessMonitor \<times> world
     \<Rightarrow> exn option \<times> FileAccessMonitor \<times> world" where
  "on_moved e now stamp ev s =
     (let fm = fst s; w = snd s in
      if is_directory ev then (None, s)
      else
        (case log_file_event e fm stamp
                (''MOVED from '' @ src_path ev @ '' to '' @ dest_path ev) '''' w of
           (Some x, w1) \<Rightarrow> (Some x, fm, w1)
         | (None, w1) \<Rightarrow>
            (let q = send_alert (fm_alert_system fm) e stamp
                       (''File moved: '' @ src_path ev @ '' -> '' @ dest_path ev) ''FILE_MOVED'' False True w1
             in (fst q, fm, snd q))))"

text \<open>What the handlers leave in the alert log and in the evidence log.\<close>

definition file_alerts :: "FileAccessMonitor \<times> world \<Rightarrow> string list" where
  "file_alerts s = file_lines (alerts_log (fm_alert_system (fst s))) (snd s)"

definition file_evidence :: "FileAccessMonitor \<times> world \<Rightarrow> string list" where
  "file_evidence s = file_lines (file_access_log (fst s)) (snd s)"

text \<open>The test of \<open>should_alert\<close>: the key is recorded less than \<open>event_window\<close> ago.\<close>

definition recently_alerted :: "FileAccessMonitor \<Rightarrow> real \<Rightarrow> string \<Rightarrow> bool" where
  "recently_alerted fm now event_key =
     (case recent_events fm event_key of Some t \<Rightarrow> now - t < event_window fm | None \<Rightarrow> False)"

text \<open>
  The watchdog thread hands the handler one modification of the same file after the
  other, each with its clock reading and its time stamp; an exception ends the run.
\<close>

definition modifications ::
  "env \<Rightarrow> fs_event \<Rightarrow> (real \<times> string) list \<Rightarrow> FileAccessMonitor \<times> world
     \<Rightarrow> exn option \<times> FileAccessMonitor \<times> world" where
  "modifications e ev ts s = for_each (\<lambda>t. on_modified e (fst t) (snd t) ev) ts s"

text \<open>
  The yardstick for the run: the modifications that alert, given when the key last
  produced an alert (\<open>None\<close>: never).  A modification less than \<open>window\<close> after the last
  alert is dropped and leaves ``last'' alone; any other is kept and becomes the last.
\<close>

fun alerting :: "real \<Rightarrow> real option \<Rightarrow> (real \<times> string) list \<Rightarrow> (real \<times> string) list" where
  "alerting window prev [] = []"
| "alerting window prev (t # ts) =
     (if (case prev of Some l \<Rightarrow> fst t - l < window | None \<Rightarrow> False)
      then alerting window prev ts
      else t # alerting window (Some (fst t)) ts)"

text \<open>A file event used below: a regular file under a watched directory.\<close>

definition report_txt :: fs_event where
  "report_txt = \<lparr>is_directory = False, src_path = ''/home/u/Documents/report.txt'', dest_path = ''''\<rparr>"

section \<open>NetworkMonitor (src/network/monitor.py)\<close>

text \<open>
  A connection as \<open>psutil.net_connections\<close> yields it.  An address that is the empty
  tuple (falsy in Python) is \<open>None\<close>; so is a missing pid.
\<close>

record addr =
  ip :: string
  port :: nat

record conn =
  laddr :: "addr option"
  raddr :: "addr option"
  status :: string
  pid :: "nat option"

record NetworkMonitor =
  nm_log_dir :: string
  local_ips :: "string set"

text \<open>
  \<open>psutil.Process(pid).name()\<close>: the name, or one of the two exceptions the code
  handles (\<open>ZombieProcess\<close> is a \<open>NoSuchProcess\<close>).  Prints and file appends succeed in
  this model, so nothing in the body of \<open>analyze_connection\<close> reaches its outer
  \<open>except Exception\<close> handler, and nothing in the loop body of \<open>monitor\<close> reaches its
  handler either.
\<close>

datatype name_result = Name string | Raises_NoSuchProcess | Raises_AccessDenied

definition network_alerts_log :: "NetworkMonitor \<Rightarrow> string" where
  "network_alerts_log nm = path_join (nm_log_dir nm) ''network_alerts.log''"

definition all_connections_log :: "NetworkMonitor \<Rightarrow> string" where
  "all_connections_log nm = path_join (nm_log_dir nm) ''all_connections.log''"

definition nm_log_alert :: "NetworkMonitor \<Rightarrow> string \<Rightarrow> string \<Rightarrow> string \<Rightarrow> world \<Rightarrow> world" where
  "nm_log_alert nm stamp message severity w =
     w @ console_alert severity message
       @ [Append (network_alerts_log nm) (alert_line stamp severity message)]"

definition log_connection :: "NetworkMonitor \<Rightarrow> string \<Rightarrow> string \<Rightarrow> world \<Rightarrow> world" where
  "log_connection nm stamp conn_info w =
     w @ [Append (all_connections_log nm) (''['' @ stamp @ ''] '' @ conn_info)]"

definition is_listening_port :: "conn \<Rightarrow> bool" where
  "is_listening_port c = (status c = ''LISTEN'')"

text \<open>The loopback test of the source: \<open>remote_ip.startswith('127.')\<close>.\<close>

definition is_loopback :: "string \<Rightarrow> bool" where
  "is_loopback remote_ip = prefix ''127.'' remote_ip"

definition is_inbound_connection :: "NetworkMonitor \<Rightarrow> conn \<Rightarrow> bool" where
  "is_inbound_connection nm c =
     (if status c = ''ESTABLISHED''
      then (case laddr c of
              None \<Rightarrow> False
            | Some l \<Rightarrow>
               (case raddr c of
                  None \<Rightarrow> False
                | Some r \<Rightarrow>
                   (if ip l \<in> local_ips nm \<and> ip r \<notin> local_ips nm
                    then (if \<not> is_loopback (ip r) then True else False)
                    else False)))
      else False)"

definition addr_str :: "addr option \<Rightarrow> string" where
  "addr_str a = (case a of None \<Rightarrow> ''N/A'' | Some x \<Rightarrow> ip x @ '':'' @ str_nat (port x))"

text \<open>The process name: \<open>Unknown\<close> for a pid that is \<open>None\<close> or 0, and for a failed lookup.\<close>

definition process_name_of :: "(nat \<Rightarrow> name_result) \<Rightarrow> nat option \<Rightarrow> string" where
  "process_name_of procs p =
     (case p of
        None \<Rightarrow> ''Unknown''
      | Some n \<Rightarrow>
          if n = 0 then ''Unknown''
          else (case procs n of
                  Name s \<Rightarrow> s
                | Raises_NoSuchProcess \<Rightarrow> ''Unknown''
                | Raises_AccessDenied \<Rightarrow> ''Unknown''))"

definition conn_info_of :: "(nat \<Rightarrow> name_result) \<Rightarrow> conn \<Rightarrow> string" where
  "conn_info_of procs c =
     ''Local: '' @ addr_str (laddr c) @ '' | Remote: '' @ addr_str (raddr c) @ '' | ''
     @ ''Status: '' @ status c @ '' | Process: '' @ process_name_of procs (pid c)
     @ '' (PID: '' @ str_nat_opt (pid c) @ '')''"

definition threat_message :: "(nat \<Rightarrow> name_result) \<Rightarrow> conn \<Rightarrow> string" where
  "threat_message procs c =
     ''INBOUND CONNECTION DETECTED - ''
     @ ''Remote IP: '' @ str_opt (map_option ip (raddr c))
     @ '' attempting to connect to your machine at '' @ addr_str (laddr c) @ '' | ''
     @ ''Process: '' @ process_name_of procs (pid c) @ '' (PID: '' @ str_nat_opt (pid c) @ '')''"

text \<open>\<open>analyze_connection(conn)\<close>: the value returned and the trace.\<close>

definition analyze_connection ::
  "NetworkMonitor \<Rightarrow> (nat \<Rightarrow> name_result) \<Rightarrow> string \<Rightarrow> conn \<Rightarrow> world \<Rightarrow> bool \<times> world" where
  "analyze_connection nm procs stamp c w =
     (let w1 = log_connection nm stamp (conn_info_of procs c) w in
      if is_inbound_connection nm c
      then (True, nm_log_alert nm stamp (threat_message procs c) ''THREAT'' w1)
      else if is_listening_port c
      then (False, w1 @ [Print (warning_sign @ ''  Listening port detected: '' @ addr_str (laddr c)
                                @ '' (Process: '' @ process_name_of procs (pid c) @ '')'')])
      else (False, w1))"

text \<open>
  The identifier \<open>conn_id\<close> the loop of \<open>monitor\<close> builds; \<open>None\<close> stands for the
  \<open>continue\<close> of a connection without a local address.
\<close>

definition conn_id :: "conn \<Rightarrow> string option" where
  "conn_id c =
     (case laddr c of
        None \<Rightarrow> None
      | Some l \<Rightarrow>
         (case raddr c of
            Some r \<Rightarrow> Some (ip l @ '':'' @ str_nat (port l) @ ''-'' @ ip r @ '':'' @ str_nat (port r)
                            @ ''-'' @ status c)
          | None \<Rightarrow> Some (ip l @ '':'' @ str_nat (port l) @ ''-'' @ status c)))"

text \<open>One iteration of \<open>for conn in connections\<close>, on the set \<open>seen_connections\<close>.\<close>

definition monitor_conn ::
  "NetworkMonitor \<Rightarrow> (nat \<Rightarrow> name_result) \<Rightarrow> string \<Rightarrow> conn \<Rightarrow> string set \<times> world
     \<Rightarrow> string set \<times> world" where
  "monitor_conn nm procs stamp c s =
     (case conn_id c of
        None \<Rightarrow> s
      | Some i \<Rightarrow>
          if i \<notin> fst s
          then (insert i (fst s), snd (analyze_connection nm procs stamp c (snd s)))
          else s)"

text \<open>One pass of \<open>while True\<close>: the connections of one call of \<open>psutil.net_connections\<close>.\<close>

fun poll ::
  "NetworkMonitor \<Rightarrow> (nat \<Rightarrow> name_result) \<Rightarrow> string \<Rightarrow> conn list \<Rightarrow> string set \<times> world
     \<Rightarrow> string set \<times> world" where
  "poll nm procs stamp [] s = s"
| "poll nm procs stamp (c # cs) s = poll nm procs stamp cs (monitor_conn nm procs stamp c s)"

text \<open>
  \<open>monitor\<close>, for the polls of a finite stretch of the run, starting from the empty
  set of seen connections.
\<close>

fun polls ::
  "NetworkMonitor \<Rightarrow> (nat \<Rightarrow> name_result) \<Rightarrow> string \<Rightarrow> conn list list \<Rightarrow> string set \<times> world
     \<Rightarrow> string set \<times> world" where
  "polls nm procs stamp [] s = s"
| "polls nm procs stamp (cs # css) s = polls nm procs stamp css (poll nm procs stamp cs s)"

definition monitor :: "NetworkMonitor \<Rightarrow> (nat \<Rightarrow> name_result) \<Rightarrow> string \<Rightarrow> conn list list \<Rightarrow> world \<Rightarrow> world" where
  "monitor nm procs stamp css w = snd (polls nm procs stamp css ({}, w))"

text \<open>The evidence log and the threat alerts.\<close>

definition connection_evidence :: "NetworkMonitor \<Rightarrow> world \<Rightarrow> string list" where
  "connection_evidence nm w = file_lines (all_connections_log nm) w"

definition threat_alerts :: "NetworkMonitor \<Rightarrow> world \<Rightarrow> string list" where
  "threat_alerts nm w = file_lines (network_alerts_log nm) w"

text \<open>The machine and the connections of the examples.\<close>

definition this_machine :: NetworkMonitor where
  "this_machine = \<lparr>nm_log_dir = ''logs'', local_ips = {''127.0.0.1'', ''192.168.1.10''}\<rparr>"

definition no_processes :: "nat \<Rightarrow> name_result" where
  "no_processes p = Raises_NoSuchProcess"

definition https_from_outside :: conn where
  "https_from_outside =
     \<lparr>laddr = Some \<lparr>ip = ''192.168.1.10'', port = 443\<rparr>,
      raddr = Some \<lparr>ip = ''203.0.113.7'', port = 51422\<rparr>,
      status = ''ESTABLISHED'', pid = None\<rparr>"

definition from_loopback :: conn where
  "from_loopback =
     \<lparr>laddr = Some \<lparr>ip = ''192.168.1.10'', port = 443\<rparr>,
      raddr = Some \<lparr>ip = ''127.0.0.5'', port = 51422\<rparr>,
      status = ''ESTABLISHED'', pid = None\<rparr>"

definition unbound_socket :: conn where
  "unbound_socket = \<lparr>laddr = None, raddr = None, status = ''NONE'', pid = None\<rparr>"

section \<open>ProcessMonitor (src/process/process\_monitor.py)\<close>

text \<open>
  One entry of \<open>psutil.process_iter(attrs)\<close>: the dictionary \<open>proc.info\<close>.  \<open>psutil\<close>
  fills a value it may not read (access denied, zombie process) with \<open>None\<close>; the pid is
  always there.
\<close>

record proc_info =
  p_pid :: nat
  p_name :: "string option"
  p_username :: "string option"
  p_cmdline :: "string list option"
  p_cpu_percent :: "real option"
  p_memory_percent :: "real option"

record ProcessMonitor =
  pm_log_dir :: string
  pm_alert_system :: AlertSystem
  known_processes :: "nat set"
  suspicious_names :: "string list"
  cpu_threshold :: int
  memory_threshold :: int
  high_resource_tracker :: "string \<rightharpoonup> int"
  alert_threshold :: int

definition ProcessMonitor_init :: "string \<Rightarrow> ProcessMonitor" where
  "ProcessMonitor_init d =
     \<lparr>pm_log_dir = d, pm_alert_system = AlertSystem_init d, known_processes = {},
      suspicious_names =
        [''nc'', ''netcat'', ''nmap'', ''masscan'', ''hping'',
         ''metasploit'', ''msfconsole'', ''armitage'',
         ''mimikatz'', ''procdump'', ''pwdump'',
         ''keylogger'', ''logger'',
         ''cryptominer'', ''xmrig'', ''minergate'',
         ''backdoor'', ''trojan'', ''rootkit''],
      cpu_threshold = 80, memory_threshold = 80,
      high_resource_tracker = Map.empty, alert_threshold = 3\<rparr>"

definition process_monitor_log :: "ProcessMonitor \<Rightarrow> string" where
  "process_monitor_log pm = path_join (pm_log_dir pm) ''process_monitor.log''"

definition log_process_event ::
  "env \<Rightarrow> ProcessMonitor \<Rightarrow> string \<Rightarrow> string \<Rightarrow> string \<Rightarrow> world \<Rightarrow> exn option \<times> world" where
  "log_process_event e pm stamp event_type message w =
     append_line e (process_monitor_log pm) (''['' @ stamp @ ''] '' @ event_type @ '': '' @ message) w"

text \<open>
  \<open>is_suspicious_name\<close>: the name in lower case contains one of the configured
  substrings; the loop returns at the first that matches.
\<close>

fun contains_any :: "string list \<Rightarrow> string \<Rightarrow> bool" where
  "contains_any [] process_name_lower = False"
| "contains_any (suspicious # rest) process_name_lower =
     (if sublist suspicious process_name_lower then True else contains_any rest process_name_lower)"

definition is_suspicious_name :: "ProcessMonitor \<Rightarrow> string \<Rightarrow> bool" where
  "is_suspicious_name pm process_name = contains_any (suspicious_names pm) (lower process_name)"

text \<open>\<open>' '.join(cmdline) if cmdline else ''\<close>, and \<open>str\<close> of an integer.\<close>

fun join_space :: "string list \<Rightarrow> string" where
  "join_space [] = []"
| "join_space [s] = s"
| "join_space (s # t # ss) = s @ '' '' @ join_space (t # ss)"

definition cmdline_of :: "proc_info \<Rightarrow> string" where
  "cmdline_of p = (case p_cmdline p of None \<Rightarrow> [] | Some ws \<Rightarrow> join_space ws)"

definition str_int :: "int \<Rightarrow> string" where
  "str_int i = (if i < 0 then ''-'' @ str_nat (nat (- i)) else str_nat (nat i))"

definition new_process_message :: "proc_info \<Rightarrow> string" where
  "new_process_message p =
     ''PID: '' @ str_nat (p_pid p) @ '', Name: '' @ str_opt (p_name p)
     @ '', User: '' @ str_opt (p_username p) @ '', Command: '' @ take 100 (cmdline_of p)"

definition suspicious_message :: "proc_info \<Rightarrow> string" where
  "suspicious_message p =
     ''SUSPICIOUS PROCESS DETECTED | Name: '' @ str_opt (p_name p)
     @ '' | PID: '' @ str_nat (p_pid p) @ '' | ''
     @ ''User: '' @ str_opt (p_username p) @ '' | Command: '' @ take 100 (cmdline_of p)"

text \<open>
  The body of the loop of \<open>check_new_processes\<close>, on the set \<open>current_processes\<close> and
  the trace.  A new process is logged, and alerted with sound when its name is
  suspicious; \<open>is_suspicious_name(None)\<close> raises \<open>AttributeError\<close> at \<open>None.lower()\<close>.
  The body reads the dictionary only, so none of the three \<open>psutil\<close> exceptions of
  its \<open>except\<close> clause arises in it; any other exception leaves the loop.
\<close>

definition new_process_step ::
  "ProcessMonitor \<Rightarrow> env \<Rightarrow> string \<Rightarrow> proc_info \<Rightarrow> nat set \<times> world \<Rightarrow> exn option \<times> nat set \<times> world" where
  "new_process_step pm e stamp p s =
     (let current_processes = insert (p_pid p) (fst s); w = snd s in
      if p_pid p \<notin> known_processes pm
      then
        (case log_process_event e pm stamp ''NEW_PROCESS'' (new_process_message p) w of
           (Some x, w1) \<Rightarrow> (Some x, current_processes, w1)
         | (None, w1) \<Rightarrow>
            (case p_name p of
               None \<Rightarrow> (Some AttributeError, current_processes, w1)
             | Some name \<Rightarrow>
                 if is_suspicious_name pm name
                 then (let q = send_alert (pm_alert_system pm) e stamp (suspicious_message p)
                                 ''SUSPICIOUS_PROCESS'' True True w1
                       in (fst q, current_processes, snd q))
                 else (None, current_processes, w1)))
      else (None, current_processes, w))"

text \<open>
  \<open>check_new_processes\<close> on the processes \<open>process_iter\<close> yields: \<open>known_processes\<close> is
  replaced after the loop, so not when an exception left it.
\<close>

definition check_new_processes ::
  "env \<Rightarrow> string \<Rightarrow> proc_info list \<Rightarrow> ProcessMonitor \<times> world \<Rightarrow> exn option \<times> ProcessMonitor \<times> world" where
  "check_new_processes e stamp procs s =
     (let pm = fst s;
          r = for_each (new_process_step pm e stamp) procs ({}, snd s)
      in case fst r of
           None \<Rightarrow> (None, pm\<lparr>known_processes := fst (snd r)\<rparr>, snd (snd r))
         | Some x \<Rightarrow> (Some x, pm, snd (snd r)))"

text \<open>The keys \<open>f"cpu_{pid}"\<close> and \<open>f"mem_{pid}"\<close>, and reading the \<open>defaultdict(int)\<close>.\<close>

definition cpu_key :: "nat \<Rightarrow> string" where
  "cpu_key n = ''cpu_'' @ str_nat n"

definition mem_key :: "nat \<Rightarrow> string" where
  "mem_key n = ''mem_'' @ str_nat n"

definition streak :: "(string \<rightharpoonup> int) \<Rightarrow> string \<Rightarrow> int" where
  "streak t k = (case t k of None \<Rightarrow> 0 | Some v \<Rightarrow> v)"

text \<open>
  One of the two checks of a process, both written out alike in the source: over the
  threshold the counter of the key goes up by one and, when it has reached
  \<open>alert_threshold\<close>, the event is logged, the alert is sent without sound and the
  counter is set to 0; at or under the threshold the counter is set to 0.
\<close>

definition streak_check ::
  "ProcessMonitor \<Rightarrow> env \<Rightarrow> string \<Rightarrow> string \<Rightarrow> bool \<Rightarrow> string \<Rightarrow> string \<Rightarrow> string
     \<Rightarrow> (string \<rightharpoonup> int) \<times> world \<Rightarrow> exn option \<times> (string \<rightharpoonup> int) \<times> world" where
  "streak_check pm e stamp key over event_type log_message alert_message s =
     (let t = fst s; w = snd s in
      if over
      then
        (let t1 = t(key \<mapsto> streak t key + 1) in
         if streak t1 key \<ge> alert_threshold pm
         then
           (case log_process_event e pm stamp event_type log_message w of
              (Some x, w1) \<Rightarrow> (Some x, t1, w1)
            | (None, w1) \<Rightarrow>
               (let q = send_alert (pm_alert_system pm) e stamp alert_message event_type False True w1
                in case fst q of
                     None \<Rightarrow> (None, t1(key \<mapsto> 0), snd q)
                   | Some x \<Rightarrow> (Some x, t1, snd q)))
         else (None, t1, w))
      else (None, t(key \<mapsto> 0), w))"

definition high_cpu_log :: "(real \<Rightarrow> string) \<Rightarrow> proc_info \<Rightarrow> real \<Rightarrow> string" where
  "high_cpu_log fmt1 p cpu_percent =
     ''PID: '' @ str_nat (p_pid p) @ '', Name: '' @ str_opt (p_name p)
     @ '', CPU: '' @ fmt1 cpu_percent @ ''%''"

definition high_cpu_alert :: "ProcessMonitor \<Rightarrow> (real \<Rightarrow> string) \<Rightarrow> proc_info \<Rightarrow> real \<Rightarrow> string" where
  "high_cpu_alert pm fmt1 p cpu_percent =
     ''HIGH CPU USAGE | Process: '' @ str_opt (p_name p) @ '' (PID: '' @ str_nat (p_pid p) @ '') | ''
     @ ''CPU: '' @ fmt1 cpu_percent @ ''% (threshold: '' @ str_int (cpu_threshold pm) @ ''%)''"

definition high_memory_log :: "(real \<Rightarrow> string) \<Rightarrow> proc_info \<Rightarrow> real \<Rightarrow> string" where
  "high_memory_log fmt1 p memory_percent =
     ''PID: '' @ str_nat (p_pid p) @ '', Name: '' @ str_opt (p_name p)
     @ '', Memory: '' @ fmt1 memory_percent @ ''%''"

definition high_memory_alert :: "ProcessMonitor \<Rightarrow> (real \<Rightarrow> string) \<Rightarrow> proc_info \<Rightarrow> real \<Rightarrow> string" where
  "high_memory_alert pm fmt1 p memory_percent =
     ''HIGH MEMORY USAGE | Process: '' @ str_opt (p_name p) @ '' (PID: '' @ str_nat (p_pid p) @ '') | ''
     @ ''Memory: '' @ fmt1 memory_percent @ ''% (threshold: '' @ str_int (memory_threshold pm) @ ''%)''"

text \<open>
  The body of the loop of \<open>check_resource_usage\<close>, on \<open>high_resource_tracker\<close> and the
  trace.  Comparing \<open>None\<close> with the threshold raises \<open>TypeError\<close>, which the \<open>except\<close>
  clause (the three \<open>psutil\<close> exceptions) does not catch.
\<close>

definition resource_step ::
  "ProcessMonitor \<Rightarrow> env \<Rightarrow> (real \<Rightarrow> string) \<Rightarrow> string \<Rightarrow> proc_info
     \<Rightarrow> (string \<rightharpoonup> int) \<times> world \<Rightarrow> exn option \<times> (string \<rightharpoonup> int) \<times> world" where
  "resource_step pm e fmt1 stamp p s =
     (case p_cpu_percent p of
        None \<Rightarrow> (Some TypeError, s)
      | Some cpu_percent \<Rightarrow>
          and_then
            (streak_check pm e stamp (cpu_key (p_pid p)) (cpu_percent > real_of_int (cpu_threshold pm))
               ''HIGH_CPU'' (high_cpu_log fmt1 p cpu_percent) (high_cpu_alert pm fmt1 p cpu_percent) s)
            (\<lambda>s1.
               case p_memory_percent p of
                 None \<Rightarrow> (Some TypeError, s1)
               | Some memory_percent \<Rightarrow>
                   streak_check pm e stamp (mem_key (p_pid p))
                     (memory_percent > real_of_int (memory_threshold pm))
                     ''HIGH_MEMORY'' (high_memory_log fmt1 p memory_percent)
                     (high_memory_alert pm fmt1 p memory_percent) s1))"

definition check_resource_usage ::
  "env \<Rightarrow> (real \<Rightarrow> string) \<Rightarrow> string \<Rightarrow> proc_info list \<Rightarrow> ProcessMonitor \<times> world
     \<Rightarrow> exn option \<times> ProcessMonitor \<times> world" where
  "check_resource_usage e fmt1 stamp procs s =
     (let pm = fst s;
          r = for_each (resource_step pm e fmt1 stamp) procs (high_resource_tracker pm, snd s)
      in (fst r, pm\<lparr>high_resource_tracker := fst (snd r)\<rparr>, snd (snd r)))"

text \<open>
  One pass of the loop of \<open>monitor\<close>: the two checks, each on its own call of
  \<open>process_iter\<close>, and the summary line printed.  The loop catches
  \<open>KeyboardInterrupt\<close> only, so an exception of a pass ends the loop, and with it the
  thread of the process monitor.
\<close>

record tick =
  t_stamp :: string
  t_new_scan :: "proc_info list"
  t_usage_scan :: "proc_info list"
  t_summary :: string

definition monitor_pass ::
  "env \<Rightarrow> (real \<Rightarrow> string) \<Rightarrow> tick \<Rightarrow> ProcessMonitor \<times> world \<Rightarrow> exn option \<times> ProcessMonitor \<times> world" where
  "monitor_pass e fmt1 tk s =
     and_then (check_new_processes e (t_stamp tk) (t_new_scan tk) s) (\<lambda>s1.
     and_then (check_resource_usage e fmt1 (t_stamp tk) (t_usage_scan tk) s1) (\<lambda>s2.
       (fst (print_line e (t_summary tk) (snd s2)), fst s2, snd (print_line e (t_summary tk) (snd s2)))))"

definition process_monitor ::
  "env \<Rightarrow> (real \<Rightarrow> string) \<Rightarrow> proc_info list \<Rightarrow> tick list \<Rightarrow> ProcessMonitor \<times> world
     \<Rightarrow> exn option \<times> ProcessMonitor \<times> world" where
  "process_monitor e fmt1 first_scan ticks s =
     for_each (monitor_pass e fmt1) ticks
       ((fst s)\<lparr>known_processes := p_pid ` set first_scan\<rparr>, snd s)"

text \<open>What the checks leave in the alert log and in the log of the process monitor.\<close>

definition process_alerts :: "ProcessMonitor \<times> world \<Rightarrow> string list" where
  "process_alerts s = file_lines (alerts_log (pm_alert_system (fst s))) (snd s)"

definition process_events :: "ProcessMonitor \<times> world \<Rightarrow> string list" where
  "process_events s = file_lines (process_monitor_log (fst s)) (snd s)"

text \<open>
  A process of a scan that \<open>check_new_processes\<close> alerts on: its pid is not among the
  known ones and its name is suspicious.
\<close>

definition newly_suspicious :: "ProcessMonitor \<Rightarrow> proc_info \<Rightarrow> bool" where
  "newly_suspicious pm p =
     (p_pid p \<notin> known_processes pm
      \<and> (case p_name p of None \<Rightarrow> False | Some name \<Rightarrow> is_suspicious_name pm name))"

definition suspicious_line :: "string \<Rightarrow> proc_info \<Rightarrow> string" where
  "suspicious_line stamp p = alert_line stamp ''SUSPICIOUS_PROCESS'' (suspicious_message p)"

text \<open>
  The check run tick after tick, each with its time stamp and its scan; and the
  yardstick for it: the alerts to expect when the previous tick held the pids \<open>prev\<close>.
\<close>

definition watch ::
  "env \<Rightarrow> (string \<times> proc_info list) list \<Rightarrow> ProcessMonitor \<times> world
     \<Rightarrow> exn option \<times> ProcessMonitor \<times> world" where
  "watch e scans s = for_each (\<lambda>t. check_new_processes e (fst t) (snd t)) scans s"

fun expected_alerts :: "ProcessMonitor \<Rightarrow> (string \<times> proc_info list) list \<Rightarrow> string list" where
  "expected_alerts pm [] = []"
| "expected_alerts pm (t # ts) =
     map (suspicious_line (fst t)) (filter (newly_suspicious pm) (snd t))
     @ expected_alerts (pm\<lparr>known_processes := p_pid ` set (snd t)\<rparr>) ts"

text \<open>The processes of the examples.\<close>

definition proc :: "nat \<Rightarrow> string \<Rightarrow> real \<Rightarrow> real \<Rightarrow> proc_info" where
  "proc n name cpu mem =
     \<lparr>p_pid = n, p_name = Some name, p_username = Some ''root'', p_cmdline = Some [name],
      p_cpu_percent = Some cpu, p_memory_percent = Some mem\<rparr>"

definition denied :: "nat \<Rightarrow> proc_info" where
  "denied n =
     \<lparr>p_pid = n, p_name = Some ''systemd'', p_username = None, p_cmdline = None,
      p_cpu_percent = None, p_memory_percent = None\<rparr>"

definition four_scans :: "(string \<times> proc_info list) list" where
  "four_scans =
     [(''2025-01-01 12:00:05'', [proc 1 ''sshd'' 0 0, proc 4242 ''Nmap'' 0 0]),
      (''2025-01-01 12:00:10'', [proc 1 ''sshd'' 0 0, proc 4242 ''Nmap'' 0 0]),
      (''2025-01-01 12:00:15'', [proc 1 ''sshd'' 0 0]),
      (''2025-01-01 12:00:20'', [proc 1 ''sshd'' 0 0, proc 4242 ''Nmap'' 0 0])]"

definition after_first_scan :: "ProcessMonitor \<times> world" where
  "after_first_scan = ((ProcessMonitor_init ''logs'')\<lparr>known_processes := {1}\<rparr>, [])"

text \<open>
  The yardsticks for the resource check.  A metric is over its threshold; the counter
  of a key after a tick, from the counter before and whether the reading was over the
  threshold; and whether the tick alerts.
\<close>

definition cpu_over :: "ProcessMonitor \<Rightarrow> proc_info \<Rightarrow> bool" where
  "cpu_over pm p =
     (case p_cpu_percent p of None \<Rightarrow> False | Some c \<Rightarrow> c > real_of_int (cpu_threshold pm))"

definition mem_over :: "ProcessMonitor \<Rightarrow> proc_info \<Rightarrow> bool" where
  "mem_over pm p =
     (case p_memory_percent p of None \<Rightarrow> False | Some m \<Rightarrow> m > real_of_int (memory_threshold pm))"

definition next_streak :: "ProcessMonitor \<Rightarrow> int \<Rightarrow> bool \<Rightarrow> int" where
  "next_streak pm c over =
     (if over then (if c + 1 \<ge> alert_threshold pm then 0 else c + 1) else 0)"

definition streak_fires :: "ProcessMonitor \<Rightarrow> int \<Rightarrow> bool \<Rightarrow> bool" where
  "streak_fires pm c over = (over \<and> c + 1 \<ge> alert_threshold pm)"

text \<open>The alerts one process adds in a tick, given the counters before the tick.\<close>

definition usage_alerts ::
  "ProcessMonitor \<Rightarrow> (real \<Rightarrow> string) \<Rightarrow> string \<Rightarrow> (string \<rightharpoonup> int) \<Rightarrow> proc_info \<Rightarrow> string list" where
  "usage_alerts pm fmt1 stamp t p =
     (case p_cpu_percent p of
        None \<Rightarrow> []
      | Some c \<Rightarrow>
          if streak_fires pm (streak t (cpu_key (p_pid p))) (cpu_over pm p)
          then [alert_line stamp ''HIGH_CPU'' (high_cpu_alert pm fmt1 p c)] else [])
     @ (case p_memory_percent p of
          None \<Rightarrow> []
        | Some m \<Rightarrow>
            if streak_fires pm (streak t (mem_key (p_pid p))) (mem_over pm p)
            then [alert_line stamp ''HIGH_MEMORY'' (high_memory_alert pm fmt1 p m)] else [])"

text \<open>The counters after one process has been checked, and after a list of them.\<close>

definition after_process :: "ProcessMonitor \<Rightarrow> (string \<rightharpoonup> int) \<Rightarrow> proc_info \<Rightarrow> (string \<rightharpoonup> int)" where
  "after_process pm t p =
     (t(cpu_key (p_pid p) \<mapsto> next_streak pm (streak t (cpu_key (p_pid p))) (cpu_over pm p)))
       (mem_key (p_pid p) \<mapsto> next_streak pm (streak t (mem_key (p_pid p))) (mem_over pm p))"

fun alerts_along ::
  "ProcessMonitor \<Rightarrow> (real \<Rightarrow> string) \<Rightarrow> string \<Rightarrow> (string \<rightharpoonup> int) \<Rightarrow> proc_info list \<Rightarrow> string list" where
  "alerts_along pm fmt1 stamp t [] = []"
| "alerts_along pm fmt1 stamp t (p # ps) =
     usage_alerts pm fmt1 stamp t p @ alerts_along pm fmt1 stamp (after_process pm t p) ps"

text \<open>The resource check run tick after tick, each with its time stamp and its scan.\<close>

definition usage_watch ::
  "env \<Rightarrow> (real \<Rightarrow> string) \<Rightarrow> (string \<times> proc_info list) list \<Rightarrow> ProcessMonitor \<times> world
     \<Rightarrow> exn option \<times> ProcessMonitor \<times> world" where
  "usage_watch e fmt1 scans s = for_each (\<lambda>t. check_resource_usage e fmt1 (fst t) (snd t)) scans s"

text \<open>
  A process that keeps the processor busy, the same process at rest, and the state of
  a new monitor after two ticks that saw it busy.
\<close>

definition busy :: proc_info where
  "busy = proc 77 ''stress'' 95 10"

definition at_rest :: proc_info where
  "at_rest = proc 77 ''stress'' 80 10"

definition after_two_busy_ticks :: "ProcessMonitor \<times> world" where
  "after_two_busy_ticks =
     snd (usage_watch healthy (\<lambda>_. ''95.0'')
            [(''2025-01-01 12:00:05'', [busy]), (''2025-01-01 12:00:10'', [busy])]
            (ProcessMonitor_init ''logs'', []))"

section \<open>Facts about the common devices\<close>

lemma str_nat_ne [simp]: "str_nat n \<noteq> []"
  by (subst str_nat.simps) simp

lemma str_nat_ne' [simp]: "[] \<noteq> str_nat n"
  by (subst str_nat.simps) simp

lemma digit_char_inj: "a < 10 \<Longrightarrow> b < 10 \<Longrightarrow> digit_char a = digit_char b \<Longrightarrow> a = b"
proof -
  assume a: "a < 10" and b: "b < 10" and e: "digit_char a = digit_char b"
  from e have "(of_char (char_of (48 + a)) :: nat) = of_char (char_of (48 + b))"
    by (simp add: digit_char_def)
  then have "(48 + a) mod 256 = (48 + b) mod 256"
    by (simp only: of_char_of)
  with a b show "a = b" by simp
qed

lemma str_nat_inj: "str_nat a = str_nat b \<Longrightarrow> a = b"
proof (induction a arbitrary: b rule: str_nat.induct)
  case (1 n)
  show ?case
  proof (cases "n < 10")
    case True
    note n = this
    show ?thesis
    proof (cases "b < 10")
      case True
      with n 1(2) show ?thesis
        by (simp add: str_nat.simps[of n] str_nat.simps[of b] digit_char_inj)
    next
      case False
      with n 1(2) show ?thesis
        by (simp add: str_nat.simps[of n] str_nat.simps[of b])
    qed
  next
    case False
    note n = this
    show ?thesis
    proof (cases "b < 10")
      case True
      with n 1(2) show ?thesis
        by (simp add: str_nat.simps[of n] str_nat.simps[of b])
    next
      case False
      with n 1(2) have e: "str_nat (n div 10) = str_nat (b div 10)"
        and d: "digit_char (n mod 10) = digit_char (b mod 10)"
        by (simp_all add: str_nat.simps[of n] str_nat.simps[of b])
      from 1(1)[OF n e] have "n div 10 = b div 10" .
      moreover from d have "n mod 10 = b mod 10"
        by (intro digit_char_inj) simp_all
      ultimately have "n div 10 * 10 + n mod 10 = b div 10 * 10 + b mod 10"
        by (simp only:)
      then show ?thesis
        by (simp only: div_mult_mod_eq)
    qed
  qed
qed

section \<open>Facts about the packet monitor\<close>

lemma file_lines_append [simp]: "file_lines f (u @ v) = file_lines f u @ file_lines f v"
  by (induction f u rule: file_lines.induct) simp_all

lemma file_lines_console [simp]: "file_lines f (console_alert sev m) = []"
  by (simp add: console_alert_def)

lemma file_lines_pk_log_alert:
  "file_lines (packet_alerts_log pm) (pk_log_alert pm stamp m sev w) =
     file_lines (packet_alerts_log pm) w @ [alert_line stamp sev m]"
  by (simp add: pk_log_alert_def)

lemma detect_params [simp]:
  "port_scan_threshold (fst (detect_port_scan fmt1 now stamp src dst p proto s)) = port_scan_threshold (fst s)"
  "time_window (fst (detect_port_scan fmt1 now stamp src dst p proto s)) = time_window (fst s)"
  "pk_log_dir (fst (detect_port_scan fmt1 now stamp src dst p proto s)) = pk_log_dir (fst s)"
  "alert_callback (fst (detect_port_scan fmt1 now stamp src dst p proto s)) = alert_callback (fst s)"
  by (simp_all add: detect_port_scan_def Let_def)

lemma detect_other_src:
  "src' \<noteq> src \<Longrightarrow>
   scan_tracker (fst (detect_port_scan fmt1 now stamp src dst p proto s)) src' = scan_tracker (fst s) src'"
  by (simp add: detect_port_scan_def Let_def)

lemma detect_inv:
  assumes "0 < port_scan_threshold (fst s)" "tracker_inv (fst s)"
  shows "tracker_inv (fst (detect_port_scan fmt1 now stamp src dst p proto s))"
proof -
  have fin: "finite (ports (tracker_of (fst s) src))"
    using assms(2) by (auto simp: tracker_of_def tracker_inv_def tracker_default_def split: option.splits)
  show ?thesis
    unfolding tracker_inv_def
  proof (intro allI impI)
    fix src' t
    assume h: "scan_tracker (fst (detect_port_scan fmt1 now stamp src dst p proto s)) src' = Some t"
    show "finite (ports t) \<and> card (ports t) < port_scan_threshold (fst (detect_port_scan fmt1 now stamp src dst p proto s))"
    proof (cases "src' = src")
      case False
      with h assms(2) show ?thesis
        by (simp add: detect_other_src tracker_inv_def)
    next
      case True
      with h assms(1) fin show ?thesis
        by (auto simp: detect_port_scan_def Let_def not_le split: if_splits)
    qed
  qed
qed


lemma observe_params [simp]:
  "port_scan_threshold (fst (observe fmt1 c s)) = port_scan_threshold (fst s)"
  "time_window (fst (observe fmt1 c s)) = time_window (fst s)"
  "pk_log_dir (fst (observe fmt1 c s)) = pk_log_dir (fst s)"
  by (simp_all add: observe_def)

lemma observe_all_params [simp]:
  "port_scan_threshold (fst (observe_all fmt1 cs s)) = port_scan_threshold (fst s)"
  "time_window (fst (observe_all fmt1 cs s)) = time_window (fst s)"
  "pk_log_dir (fst (observe_all fmt1 cs s)) = pk_log_dir (fst s)"
  by (induction cs arbitrary: s) simp_all

lemma observe_all_inv:
  "0 < port_scan_threshold (fst s) \<Longrightarrow> tracker_inv (fst s) \<Longrightarrow> tracker_inv (fst (observe_all fmt1 cs s))"
  by (induction cs arbitrary: s) (simp_all add: observe_def detect_inv)

lemma observe_all_append: "observe_all fmt1 (xs @ ys) s = observe_all fmt1 ys (observe_all fmt1 xs s)"
  by (induction xs arbitrary: s) simp_all

lemma six_calls_tracker:
  "scan_tracker (fst (observe_all (\<lambda>_. ''0.0'') (five_ports @ [syn_packet 5 22])
       (PacketMonitor_init ''logs'' False, []))) ''10.0.0.5''
   = Some \<lparr>syn_count = 0, ports = {22}, first_seen = Some 4, last_seen = Some 5\<rparr>"
  by (simp add: observe_def detect_port_scan_def PacketMonitor_init_def five_ports_def syn_packet_def
      tracker_of_def tracker_default_def Let_def)

text \<open>
  C10.  Starting from the empty tracker, after any sequence of calls of
  \<open>detect_port_scan\<close> (any sources, ports and clock readings) every tracked source
  holds a finite port set with fewer ports than the threshold: a call that reaches the
  threshold alerts and clears the set before it returns.
\<close>

theorem tracker_stays_below_threshold:
  assumes "0 < port_scan_threshold pm" and "scan_tracker pm = Map.empty"
  shows "\<forall>src t. scan_tracker (fst (observe_all fmt1 cs (pm, w))) src = Some t \<longrightarrow>
           finite (ports t) \<and> card (ports t) < port_scan_threshold pm"
proof -
  from assms(2) have "tracker_inv (fst (pm, w))"
    by (simp add: tracker_inv_def)
  with assms(1) have "tracker_inv (fst (observe_all fmt1 cs (pm, w)))"
    by (intro observe_all_inv) simp_all
  then show ?thesis
    by (simp add: tracker_inv_def)
qed

theorem tracker_stays_below_threshold_witness:
  "scan_tracker (PacketMonitor_init ''logs'' False) = Map.empty
   \<and> scan_tracker (fst (observe_all (\<lambda>_. ''0.0'') (five_ports @ [syn_packet 5 22])
         (PacketMonitor_init ''logs'' False, []))) ''10.0.0.5''
       = Some \<lparr>syn_count = 0, ports = {22}, first_seen = Some 4, last_seen = Some 5\<rparr>
   \<and> card (ports \<lparr>syn_count = 0, ports = {22}, first_seen = Some 4, last_seen = Some 5\<rparr>)
       < port_scan_threshold (PacketMonitor_init ''logs'' False)"
proof -
  let ?pm = "PacketMonitor_init ''logs'' False"
  have pos: "0 < port_scan_threshold ?pm" and emp: "scan_tracker ?pm = Map.empty"
    by (simp_all add: PacketMonitor_init_def)
  from tracker_stays_below_threshold[OF pos emp, of "\<lambda>_. ''0.0''" "five_ports @ [syn_packet 5 22]" "[]"]
    six_calls_tracker
  have "card (ports \<lparr>syn_count = 0, ports = {22}, first_seen = Some 4, last_seen = Some 5\<rparr>)
       < port_scan_threshold ?pm"
    by blast
  with emp six_calls_tracker show ?thesis by blast
qed


lemma packet_alerts_log_update [simp]:
  "packet_alerts_log (pm\<lparr>scan_tracker := x\<rparr>) = packet_alerts_log pm"
  by (simp add: packet_alerts_log_def)

lemma scan_alerts_observe_quiet:
  assumes "tracking (fst s) (c_src c) P f" "finite P"
    "c_time c - f \<le> time_window (fst s)"
    "card (insert (c_port c) P) < port_scan_threshold (fst s)"
  shows "tracking (fst (observe fmt1 c s)) (c_src c) (insert (c_port c) P) f"
    and "snd (observe fmt1 c s) = snd s"
  using assms
  by (auto simp: observe_def detect_port_scan_def tracking_def tracker_of_def Let_def
      split: option.splits)

lemma observe_fire:
  assumes "tracking (fst s) (c_src c) P f" "finite P"
    "c_time c - f \<le> time_window (fst s)"
    "port_scan_threshold (fst s) \<le> card (insert (c_port c) P)"
  shows "scan_alerts (observe fmt1 c s) = scan_alerts s @
      [alert_line (c_stamp c) ''PORT_SCAN''
        (port_scan_message fmt1 (c_src c) (c_dst c) (card (insert (c_port c) P)) (c_time c - f)
           (sorted_list_of_set (insert (c_port c) P)) (c_proto c))]"
    and "tracking (fst (observe fmt1 c s)) (c_src c) {} (c_time c)"
  using assms
  by (auto simp: observe_def detect_port_scan_def tracking_def tracker_of_def Let_def scan_alerts_def
      file_lines_pk_log_alert
      split: option.splits)

lemma observe_fresh:
  assumes "scan_tracker (fst s) (c_src c) = None" "1 < port_scan_threshold (fst s)"
  shows "tracking (fst (observe fmt1 c s)) (c_src c) {c_port c} (c_time c)"
    and "snd (observe fmt1 c s) = snd s"
  using assms
  by (auto simp: observe_def detect_port_scan_def tracking_def tracker_of_def Let_def tracker_default_def
      split: option.splits)

lemma observe_fresh_fire:
  assumes "scan_tracker (fst s) (c_src c) = None" "port_scan_threshold (fst s) = 1"
  shows "scan_alerts (observe fmt1 c s) = scan_alerts s @
      [alert_line (c_stamp c) ''PORT_SCAN''
        (port_scan_message fmt1 (c_src c) (c_dst c) 1 0 [c_port c] (c_proto c))]"
  using assms
  by (auto simp: observe_def detect_port_scan_def tracking_def tracker_of_def Let_def tracker_default_def
       scan_alerts_def file_lines_pk_log_alert
      split: option.splits)

lemma quiet_run:
  assumes "tracking (fst s) src P f" "finite P"
    "\<forall>c\<in>set cs. c_src c = src \<and> c_time c - f \<le> time_window (fst s)"
    "distinct (map c_port cs)" "c_port ` set cs \<inter> P = {}"
    "card P + length cs < port_scan_threshold (fst s)"
  shows "tracking (fst (observe_all fmt1 cs s)) src (P \<union> c_port ` set cs) f
       \<and> snd (observe_all fmt1 cs s) = snd s"
  using assms
proof (induction cs arbitrary: s P)
  case Nil
  then show ?case by simp
next
  case (Cons c cs)
  from Cons.prems have src: "c_src c = src" and notin: "c_port c \<notin> P" by auto
  from Cons.prems notin have cardi: "card (insert (c_port c) P) = Suc (card P)"
    by simp
  have t: "tracking (fst (observe fmt1 c s)) src (insert (c_port c) P) f"
    and w: "snd (observe fmt1 c s) = snd s"
    using scan_alerts_observe_quiet[of s c P f fmt1] Cons.prems src cardi by auto
  have "tracking (fst (observe_all fmt1 cs (observe fmt1 c s))) src (insert (c_port c) P \<union> c_port ` set cs) f
       \<and> snd (observe_all fmt1 cs (observe fmt1 c s)) = snd (observe fmt1 c s)"
    using Cons.prems t cardi by (intro Cons.IH) auto
  with w show ?case by simp
qed

lemma packet_alerts_log_observe_all [simp]:
  "packet_alerts_log (fst (observe_all fmt1 cs s)) = packet_alerts_log (fst s)"
  by (simp add: packet_alerts_log_def)

lemma packet_alerts_log_observe [simp]:
  "packet_alerts_log (fst (observe fmt1 c s)) = packet_alerts_log (fst s)"
  by (simp add: packet_alerts_log_def)

lemma below_threshold_silent:
  assumes fresh: "scan_tracker pm src = None"
    and src: "\<forall>c\<in>set xs. c_src c = src"
    and dist: "distinct (map c_port xs)"
    and win: "\<forall>c\<in>set xs. c_time c - c_time (hd xs) \<le> time_window pm"
    and len: "length xs < port_scan_threshold pm"
  shows "snd (observe_all fmt1 xs (pm, w)) = w"
proof (cases xs)
  case Nil
  then show ?thesis by simp
next
  case (Cons c ys)
  let ?s1 = "observe fmt1 c (pm, w)"
  from Cons src have c: "c_src c = src" by simp
  from Cons len have n: "1 < port_scan_threshold pm" by simp
  have t1: "tracking (fst ?s1) src {c_port c} (c_time c)" and w1: "snd ?s1 = w"
    using observe_fresh[of "(pm, w)" c fmt1] fresh c n by simp_all
  have "tracking (fst (observe_all fmt1 ys ?s1)) src ({c_port c} \<union> c_port ` set ys) (c_time c)
      \<and> snd (observe_all fmt1 ys ?s1) = snd ?s1"
    using t1 Cons src dist win len by (intro quiet_run) auto
  with w1 Cons show ?thesis by simp
qed

lemma at_threshold_fires:
  assumes fresh: "scan_tracker pm src = None"
    and src: "\<forall>c\<in>set (xs @ [l]). c_src c = src"
    and dist: "distinct (map c_port (xs @ [l]))"
    and win: "\<forall>c\<in>set (xs @ [l]). c_time c - c_time (hd (xs @ [l])) \<le> time_window pm"
    and len: "length (xs @ [l]) = port_scan_threshold pm"
  shows "scan_alerts (observe_all fmt1 (xs @ [l]) (pm, w)) = scan_alerts (pm, w) @
      [alert_line (c_stamp l) ''PORT_SCAN''
        (port_scan_message fmt1 src (c_dst l) (port_scan_threshold pm)
           (c_time l - c_time (hd (xs @ [l]))) (sort (map c_port (xs @ [l]))) (c_proto l))]"
proof (cases xs)
  case Nil
  with len have "port_scan_threshold pm = 1" by simp
  with observe_fresh_fire[of "(pm, w)" l fmt1] fresh src Nil show ?thesis
    by simp
next
  case (Cons c ys)
  let ?s1 = "observe fmt1 c (pm, w)"
  let ?s2 = "observe_all fmt1 ys ?s1"
  let ?P = "{c_port c} \<union> c_port ` set ys"
  from Cons src have c: "c_src c = src" and l: "c_src l = src" by simp_all
  from Cons len have n: "1 < port_scan_threshold pm" by simp
  have t1: "tracking (fst ?s1) src {c_port c} (c_time c)" and w1: "snd ?s1 = w"
    using observe_fresh[of "(pm, w)" c fmt1] fresh c n by simp_all
  have q: "tracking (fst ?s2) src ?P (c_time c) \<and> snd ?s2 = snd ?s1"
    using t1 Cons src dist win len by (intro quiet_run) auto
  have fin: "finite ?P" by simp
  have ins: "insert (c_port l) ?P = set (map c_port (xs @ [l]))"
    using Cons by auto
  have card: "card (insert (c_port l) ?P) = port_scan_threshold pm"
    using dist len unfolding ins by (simp only: distinct_card length_map)
  have sorted: "sorted_list_of_set (insert (c_port l) ?P) = sort (map c_port (xs @ [l]))"
    unfolding ins using dist
    by (simp only: sorted_list_of_set_sort_remdups distinct_remdups_id distinct.simps)
  have "scan_alerts (observe fmt1 l ?s2) = scan_alerts ?s2 @
      [alert_line (c_stamp l) ''PORT_SCAN''
        (port_scan_message fmt1 (c_src l) (c_dst l) (card (insert (c_port l) ?P)) (c_time l - c_time c)
           (sorted_list_of_set (insert (c_port l) ?P)) (c_proto l))]"
    using q l fin win Cons card by (intro observe_fire(1)) simp_all
  moreover have "scan_alerts ?s2 = scan_alerts (pm, w)"
    using q w1 by (simp add: scan_alerts_def)
  ultimately show ?thesis
    using Cons l card sorted by (simp add: observe_all_append)
qed

lemma str_nat_5: "str_nat 5 = ''5''"
  by (simp add: str_nat.simps digit_char_def char_of_def bit_Suc_0_iff)

lemma five_ports_repr: "repr_nat_list [22, 80, 443, 3306, 8080] = ''[22, 80, 443, 3306, 8080]''"
  by (simp add: repr_nat_list_def str_nat.simps digit_char_def char_of_def bit_Suc_0_iff)


text \<open>
  C1.  A source not seen before sends packets to pairwise distinct ports, every one
  within the time window of the first.  No alert is written by any of the calls before
  the one at which the number of ports reaches the threshold, and that call writes
  exactly one PORT\_SCAN alert, which carries the sorted ports sent so far.
\<close>

theorem port_scan_alert_exactly_at_threshold:
  assumes fresh: "scan_tracker pm src = None"
    and pos: "0 < port_scan_threshold pm"
    and src: "\<forall>c\<in>set cs. c_src c = src"
    and dist: "distinct (map c_port cs)"
    and win: "\<forall>c\<in>set cs. c_time c - c_time (hd cs) \<le> time_window pm"
  shows "(\<forall>k<port_scan_threshold pm. k \<le> length cs \<longrightarrow>
            scan_alerts (observe_all fmt1 (take k cs) (pm, w)) = scan_alerts (pm, w))
       \<and> (port_scan_threshold pm \<le> length cs \<longrightarrow>
            scan_alerts (observe_all fmt1 (take (port_scan_threshold pm) cs) (pm, w)) =
              scan_alerts (pm, w) @
              [alert_line (c_stamp (cs ! (port_scan_threshold pm - 1))) ''PORT_SCAN''
                 (port_scan_message fmt1 src (c_dst (cs ! (port_scan_threshold pm - 1)))
                    (port_scan_threshold pm)
                    (c_time (cs ! (port_scan_threshold pm - 1)) - c_time (hd cs))
                    (sort (map c_port (take (port_scan_threshold pm) cs)))
                    (c_proto (cs ! (port_scan_threshold pm - 1))))])"
proof (intro conjI allI impI)
  fix k
  assume k: "k < port_scan_threshold pm" "k \<le> length cs"
  have sub: "set (take k cs) \<subseteq> set cs" by (rule set_take_subset)
  have hd: "k \<noteq> 0 \<Longrightarrow> hd (take k cs) = hd cs" by (cases cs) (simp_all add: take_Cons')
  have "snd (observe_all fmt1 (take k cs) (pm, w)) = w"
  proof (cases "k = 0")
    case True
    then show ?thesis by simp
  next
    case False
    show ?thesis
    proof (rule below_threshold_silent[OF fresh])
      show "\<forall>c\<in>set (take k cs). c_src c = src" using src sub by blast
      show "distinct (map c_port (take k cs))" using dist by (simp add: take_map[symmetric])
      show "\<forall>c\<in>set (take k cs). c_time c - c_time (hd (take k cs)) \<le> time_window pm"
        using win sub hd[OF False] by auto
      show "length (take k cs) < port_scan_threshold pm" using k by simp
    qed
  qed
  then show "scan_alerts (observe_all fmt1 (take k cs) (pm, w)) = scan_alerts (pm, w)"
    by (simp add: scan_alerts_def)
next
  let ?n = "port_scan_threshold pm"
  assume n: "?n \<le> length cs"
  let ?xs = "take (?n - 1) cs" and ?l = "cs ! (?n - 1)"
  from pos n have tk: "take ?n cs = ?xs @ [?l]"
    using take_Suc_conv_app_nth[of "?n - 1" cs] by simp
  have sub: "set (take ?n cs) \<subseteq> set cs" by (rule set_take_subset)
  have hd: "hd (take ?n cs) = hd cs" using pos by (cases cs) (simp_all add: take_Cons')
  have "scan_alerts (observe_all fmt1 (?xs @ [?l]) (pm, w)) = scan_alerts (pm, w) @
      [alert_line (c_stamp ?l) ''PORT_SCAN''
        (port_scan_message fmt1 src (c_dst ?l) (port_scan_threshold pm)
           (c_time ?l - c_time (hd (?xs @ [?l]))) (sort (map c_port (?xs @ [?l]))) (c_proto ?l))]"
  proof (rule at_threshold_fires[OF fresh])
    show "\<forall>c\<in>set (?xs @ [?l]). c_src c = src" using src sub unfolding tk by blast
    show "distinct (map c_port (?xs @ [?l]))"
      using dist unfolding tk[symmetric] by (simp add: take_map[symmetric])
    show "\<forall>c\<in>set (?xs @ [?l]). c_time c - c_time (hd (?xs @ [?l])) \<le> time_window pm"
      using win sub hd unfolding tk by auto
    show "length (?xs @ [?l]) = ?n" using n pos by simp
  qed
  then show "scan_alerts (observe_all fmt1 (take ?n cs) (pm, w)) =
              scan_alerts (pm, w) @
              [alert_line (c_stamp ?l) ''PORT_SCAN''
                 (port_scan_message fmt1 src (c_dst ?l) ?n (c_time ?l - c_time (hd cs))
                    (sort (map c_port (take ?n cs))) (c_proto ?l))]"
    using hd unfolding tk by simp
qed

theorem port_scan_alert_exactly_at_threshold_witness:
  "scan_tracker (PacketMonitor_init ''logs'' False) ''10.0.0.5'' = None
   \<and> distinct (map c_port five_ports)
   \<and> scan_alerts (observe_all (\<lambda>_. ''4.0'') (take 4 five_ports) (PacketMonitor_init ''logs'' False, [])) = []
   \<and> scan_alerts (observe_all (\<lambda>_. ''4.0'') five_ports (PacketMonitor_init ''logs'' False, [])) =
       [''[2025-01-01 12:00:00] [PORT_SCAN] PORT SCAN DETECTED | Source: 10.0.0.5 -> Target: 192.168.1.10 | Scanned 5 ports in 4.0s | Ports: [22, 80, 443, 3306, 8080] | Protocol: TCP'']"
proof -
  let ?pm = "PacketMonitor_init ''logs'' False"
  have fresh: "scan_tracker ?pm ''10.0.0.5'' = None" and pos: "0 < port_scan_threshold ?pm"
    and n: "port_scan_threshold ?pm = 5" and wdw: "time_window ?pm = 10"
    by (simp_all add: PacketMonitor_init_def)
  have src: "\<forall>c\<in>set five_ports. c_src c = ''10.0.0.5''"
    by (simp add: five_ports_def syn_packet_def)
  have dist: "distinct (map c_port five_ports)"
    by (simp add: five_ports_def syn_packet_def)
  have win: "\<forall>c\<in>set five_ports. c_time c - c_time (hd five_ports) \<le> time_window ?pm"
    by (simp add: five_ports_def syn_packet_def wdw)
  have len: "length five_ports = 5" by (simp add: five_ports_def)
  note t = port_scan_alert_exactly_at_threshold[OF fresh pos src dist win, of "\<lambda>_. ''4.0''" "[]"]
  from t have a: "scan_alerts (observe_all (\<lambda>_. ''4.0'') (take 4 five_ports) (?pm, [])) = scan_alerts (?pm, [])"
    using n len by simp
  from t have b: "scan_alerts (observe_all (\<lambda>_. ''4.0'') (take 5 five_ports) (?pm, [])) =
      scan_alerts (?pm, []) @
              [alert_line (c_stamp (five_ports ! 4)) ''PORT_SCAN''
                 (port_scan_message (\<lambda>_. ''4.0'') ''10.0.0.5'' (c_dst (five_ports ! 4)) 5
                    (c_time (five_ports ! 4) - c_time (hd five_ports))
                    (sort (map c_port (take 5 five_ports)))
                    (c_proto (five_ports ! 4)))]"
    using n len by simp
  have e: "scan_alerts (?pm, []) = []" by (simp add: scan_alerts_def)
  have tk: "take 5 five_ports = five_ports" using len by simp
  have srt: "sort (map c_port five_ports) = [22, 80, 443, 3306, 8080]"
    by (simp add: five_ports_def syn_packet_def)
  have l4: "five_ports ! 4 = syn_packet 4 8080" by (simp add: five_ports_def)
  from b have "scan_alerts (observe_all (\<lambda>_. ''4.0'') five_ports (?pm, [])) =
       [''[2025-01-01 12:00:00] [PORT_SCAN] PORT SCAN DETECTED | Source: 10.0.0.5 -> Target: 192.168.1.10 | Scanned 5 ports in 4.0s | Ports: [22, 80, 443, 3306, 8080] | Protocol: TCP'']"
    unfolding tk srt e l4
    by (simp add: alert_line_def port_scan_message_def five_ports_repr str_nat_5 syn_packet_def)
  with a e fresh dist show ?thesis by simp
qed

lemma pk_log_alert_update [simp]:
  "pk_log_alert (pm\<lparr>scan_tracker := x\<rparr>) = pk_log_alert pm"
  by (intro ext) (simp add: pk_log_alert_def)

lemma observe_expired:
  assumes "tracking (fst s) (c_src c) P f" "c_time c - f > time_window (fst s)"
  shows "observe fmt1 c s = observe fmt1 c (forget_ports (c_src c) s)"
    and "1 < port_scan_threshold (fst s) \<Longrightarrow> snd (observe fmt1 c s) = snd s"
    and "1 < port_scan_threshold (fst s) \<Longrightarrow>
          tracking (fst (observe fmt1 c s)) (c_src c) {c_port c} (c_time c)"
  using assms
  by (auto simp: observe_def detect_port_scan_def tracking_def tracker_of_def Let_def forget_ports_def
      split: option.splits)

lemma four_calls_tracking:
  "tracking (fst (observe_all (\<lambda>_. ''0.0'') (take 4 five_ports) (PacketMonitor_init ''logs'' False, [])))
     ''10.0.0.5'' {22, 80, 443, 3306} 0"
  by (simp add: observe_def detect_port_scan_def PacketMonitor_init_def five_ports_def syn_packet_def
      tracker_of_def tracker_default_def Let_def tracking_def insert_commute)


text \<open>
  C3.  One call of \<open>detect_port_scan\<close> for a source whose entry holds the ports \<open>P\<close>
  and the window start \<open>f\<close> does one of three things.  (1) Within the window, with the
  threshold reached: it writes one alert, clears the port set and sets \<open>first_seen\<close> to
  now, so that the next call within the window, whatever its port (a port seen before
  included), leaves exactly that one port in the set and writes no alert.  (2) With the
  window exceeded: it behaves as if no port had been recorded for the source, writes no
  alert and restarts the entry with the new port alone.  (3) Otherwise nothing is
  forgotten: the port is added and the window start is kept.
\<close>

theorem scan_tracker_resets_forget_ports:
  assumes t: "tracking (fst s) (c_src c) P f" and fin: "finite P"
  shows
   "(c_time c - f \<le> time_window (fst s) \<and> port_scan_threshold (fst s) \<le> card (insert (c_port c) P) \<longrightarrow>
        length (scan_alerts (observe fmt1 c s)) = Suc (length (scan_alerts s))
      \<and> tracking (fst (observe fmt1 c s)) (c_src c) {} (c_time c)
      \<and> (\<forall>c'. 1 < port_scan_threshold (fst s) \<and> c_src c' = c_src c
               \<and> c_time c' - c_time c \<le> time_window (fst s) \<longrightarrow>
             tracking (fst (observe fmt1 c' (observe fmt1 c s))) (c_src c) {c_port c'} (c_time c)
           \<and> scan_alerts (observe fmt1 c' (observe fmt1 c s)) = scan_alerts (observe fmt1 c s)))
    \<and> (c_time c - f > time_window (fst s) \<longrightarrow>
        observe fmt1 c s = observe fmt1 c (forget_ports (c_src c) s)
      \<and> (1 < port_scan_threshold (fst s) \<longrightarrow>
             scan_alerts (observe fmt1 c s) = scan_alerts s
           \<and> tracking (fst (observe fmt1 c s)) (c_src c) {c_port c} (c_time c)))
    \<and> (c_time c - f \<le> time_window (fst s) \<and> card (insert (c_port c) P) < port_scan_threshold (fst s) \<longrightarrow>
        scan_alerts (observe fmt1 c s) = scan_alerts s
      \<and> tracking (fst (observe fmt1 c s)) (c_src c) (insert (c_port c) P) f)"
proof (intro conjI impI allI)
  assume a: "c_time c - f \<le> time_window (fst s) \<and> port_scan_threshold (fst s) \<le> card (insert (c_port c) P)"
  from observe_fire(1)[OF t fin, of fmt1] a
  show "length (scan_alerts (observe fmt1 c s)) = Suc (length (scan_alerts s))" by simp
  from observe_fire(2)[OF t fin, of fmt1] a
  show t1: "tracking (fst (observe fmt1 c s)) (c_src c) {} (c_time c)" by simp
  fix c' :: scan_call
  assume b: "1 < port_scan_threshold (fst s) \<and> c_src c' = c_src c \<and> c_time c' - c_time c \<le> time_window (fst s)"
  let ?s1 = "observe fmt1 c s"
  from t1 b have t1': "tracking (fst ?s1) (c_src c') {} (c_time c)" by simp
  have q: "tracking (fst (observe fmt1 c' ?s1)) (c_src c') (insert (c_port c') {}) (c_time c)"
          "snd (observe fmt1 c' ?s1) = snd ?s1"
    using b by (intro scan_alerts_observe_quiet[OF t1'], simp_all)+
  from q(1) b show "tracking (fst (observe fmt1 c' ?s1)) (c_src c) {c_port c'} (c_time c)" by simp
  from q(2) show "scan_alerts (observe fmt1 c' ?s1) = scan_alerts ?s1"
    by (simp add: scan_alerts_def)
next
  assume a: "time_window (fst s) < c_time c - f"
  from observe_expired(1)[OF t a]
  show "observe fmt1 c s = observe fmt1 c (forget_ports (c_src c) s)" .
  assume n: "1 < port_scan_threshold (fst s)"
  from observe_expired(2)[OF t a n] show "scan_alerts (observe fmt1 c s) = scan_alerts s"
    by (simp add: scan_alerts_def)
  from observe_expired(3)[OF t a n]
  show "tracking (fst (observe fmt1 c s)) (c_src c) {c_port c} (c_time c)" .
next
  assume a: "c_time c - f \<le> time_window (fst s) \<and> card (insert (c_port c) P) < port_scan_threshold (fst s)"
  from scan_alerts_observe_quiet(2)[OF t fin, of fmt1] a
  show "scan_alerts (observe fmt1 c s) = scan_alerts s" by (simp add: scan_alerts_def)
  from scan_alerts_observe_quiet(1)[OF t fin, of fmt1] a
  show "tracking (fst (observe fmt1 c s)) (c_src c) (insert (c_port c) P) f" by simp
qed

theorem scan_tracker_resets_forget_ports_witness:
  "tracking (fst (observe_all (\<lambda>_. ''0.0'') (take 4 five_ports) (PacketMonitor_init ''logs'' False, [])))
     ''10.0.0.5'' {22, 80, 443, 3306} 0
   \<and> length (scan_alerts (observe (\<lambda>_. ''0.0'') (syn_packet 4 8080)
         (observe_all (\<lambda>_. ''0.0'') (take 4 five_ports) (PacketMonitor_init ''logs'' False, []))))
       = Suc (length (scan_alerts
           (observe_all (\<lambda>_. ''0.0'') (take 4 five_ports) (PacketMonitor_init ''logs'' False, []))))
   \<and> tracking (fst (observe (\<lambda>_. ''0.0'') (syn_packet 5 22) (observe (\<lambda>_. ''0.0'') (syn_packet 4 8080)
         (observe_all (\<lambda>_. ''0.0'') (take 4 five_ports) (PacketMonitor_init ''logs'' False, [])))))
       ''10.0.0.5'' {22} 4
   \<and> tracking (fst (observe (\<lambda>_. ''0.0'') (syn_packet 11 8080)
         (observe_all (\<lambda>_. ''0.0'') (take 4 five_ports) (PacketMonitor_init ''logs'' False, []))))
       ''10.0.0.5'' {8080} 11
   \<and> scan_alerts (observe (\<lambda>_. ''0.0'') (syn_packet 11 8080)
         (observe_all (\<lambda>_. ''0.0'') (take 4 five_ports) (PacketMonitor_init ''logs'' False, [])))
       = scan_alerts (observe_all (\<lambda>_. ''0.0'') (take 4 five_ports) (PacketMonitor_init ''logs'' False, []))"
proof -
  let ?f = "\<lambda>_::real. ''0.0''"
  let ?s = "observe_all ?f (take 4 five_ports) (PacketMonitor_init ''logs'' False, [])"
  have par: "port_scan_threshold (fst ?s) = 5" "time_window (fst ?s) = 10"
    by (simp_all add: PacketMonitor_init_def)
  have src: "c_src (syn_packet t p) = ''10.0.0.5''" "c_time (syn_packet t p) = t"
    "c_port (syn_packet t p) = p" for t p
    by (simp_all add: syn_packet_def)
  have t: "tracking (fst ?s) (c_src (syn_packet t p)) {22, 80, 443, 3306} 0" for t p
    using four_calls_tracking by (simp only: src)
  have fin: "finite {22, 80, 443, 3306 :: nat}" by simp
  note fire = scan_tracker_resets_forget_ports[OF t fin, of 4 8080 ?f, THEN conjunct1]
  note expire = scan_tracker_resets_forget_ports[OF t fin, of 11 8080 ?f, THEN conjunct2, THEN conjunct1]
  have fire': "length (scan_alerts (observe ?f (syn_packet 4 8080) ?s)) = Suc (length (scan_alerts ?s))
      \<and> (\<forall>c'. c_src c' = ''10.0.0.5'' \<and> c_time c' - 4 \<le> 10 \<longrightarrow>
             tracking (fst (observe ?f c' (observe ?f (syn_packet 4 8080) ?s))) ''10.0.0.5'' {c_port c'} 4)"
    using fire by (simp only: src par) simp
  from fire' have a: "length (scan_alerts (observe ?f (syn_packet 4 8080) ?s)) = Suc (length (scan_alerts ?s))"
    by (rule conjunct1)
  from fire' have "c_src (syn_packet 5 22) = ''10.0.0.5'' \<and> c_time (syn_packet 5 22) - 4 \<le> 10 \<longrightarrow>
      tracking (fst (observe ?f (syn_packet 5 22) (observe ?f (syn_packet 4 8080) ?s))) ''10.0.0.5''
        {c_port (syn_packet 5 22)} 4"
    by (elim conjE allE[of _ "syn_packet 5 22"])
  then have b: "tracking (fst (observe ?f (syn_packet 5 22) (observe ?f (syn_packet 4 8080) ?s))) ''10.0.0.5'' {22} 4"
    by (simp add: src)
  have e1: "time_window (fst ?s) < c_time (syn_packet 11 8080) - 0"
    and e2: "1 < port_scan_threshold (fst ?s)"
    by (simp_all add: src PacketMonitor_init_def)
  from expire[THEN mp, OF e1, THEN conjunct2, THEN mp, OF e2]
  have c: "tracking (fst (observe ?f (syn_packet 11 8080) ?s)) ''10.0.0.5'' {8080} 11"
    and d: "scan_alerts (observe ?f (syn_packet 11 8080) ?s) = scan_alerts ?s"
    by (simp_all only: src)
  from four_calls_tracking a b c d show ?thesis by (intro conjI)
qed

section \<open>Facts about paths\<close>

lemma suffix_path_join: "suffix name (path_join d name)"
  by (simp add: path_join_def suffix_def)

lemma path_join_neq:
  assumes "\<not> suffix n1 n2" "\<not> suffix n2 n1"
  shows "path_join d1 n1 \<noteq> path_join d2 n2"
proof
  assume e: "path_join d1 n1 = path_join d2 n2"
  have "suffix n1 (path_join d1 n1)" "suffix n2 (path_join d1 n1)"
    using suffix_path_join[of n1 d1] suffix_path_join[of n2 d2] e by simp_all
  then have "suffix n1 n2 \<or> suffix n2 n1"
    by (rule suffix_same_cases)
  with assms show False by blast
qed

section \<open>Facts about the network monitor\<close>

lemma network_logs_distinct [simp]:
  "network_alerts_log nm \<noteq> all_connections_log nm'" "all_connections_log nm' \<noteq> network_alerts_log nm"
proof -
  show "network_alerts_log nm \<noteq> all_connections_log nm'"
    unfolding network_alerts_log_def all_connections_log_def
    by (rule path_join_neq) (simp_all add: suffix_to_prefix)
  then show "all_connections_log nm' \<noteq> network_alerts_log nm" by (rule not_sym)
qed

lemma is_inbound_connection_iff:
  "is_inbound_connection nm c \<longleftrightarrow>
     status c = ''ESTABLISHED''
     \<and> (\<exists>l r. laddr c = Some l \<and> raddr c = Some r
            \<and> ip l \<in> local_ips nm \<and> ip r \<notin> local_ips nm \<and> \<not> is_loopback (ip r))"
  by (auto simp: is_inbound_connection_def split: option.splits)

lemma analyze_connection_obs:
  "fst (analyze_connection nm procs stamp c w) = is_inbound_connection nm c"
  "threat_alerts nm (snd (analyze_connection nm procs stamp c w)) =
     threat_alerts nm w @
       (if is_inbound_connection nm c then [alert_line stamp ''THREAT'' (threat_message procs c)] else [])"
  "connection_evidence nm (snd (analyze_connection nm procs stamp c w)) =
     connection_evidence nm w @ [''['' @ stamp @ ''] '' @ conn_info_of procs c]"
  by (simp_all add: analyze_connection_def Let_def threat_alerts_def connection_evidence_def
      nm_log_alert_def log_connection_def)

lemma outside_is_inbound: "is_inbound_connection this_machine https_from_outside"
  by (simp add: is_inbound_connection_def this_machine_def https_from_outside_def is_loopback_def)

lemma loopback_remote: "raddr from_loopback = Some \<lparr>ip = ''127.0.0.5'', port = 51422\<rparr>
    \<and> is_loopback (ip \<lparr>ip = ''127.0.0.5'', port = 51422\<rparr>)
    \<and> status from_loopback = ''ESTABLISHED''
    \<and> laddr from_loopback = Some \<lparr>ip = ''192.168.1.10'', port = 443\<rparr>
    \<and> ip \<lparr>ip = ''192.168.1.10'', port = 443\<rparr> \<in> local_ips this_machine"
  by (simp add: from_loopback_def is_loopback_def this_machine_def)

lemma outside_threat_message:
  "alert_line ''2025-01-01 12:00:00'' ''THREAT'' (threat_message no_processes https_from_outside) =
   ''[2025-01-01 12:00:00] [THREAT] INBOUND CONNECTION DETECTED - Remote IP: 203.0.113.7 attempting to connect to your machine at 192.168.1.10:443 | Process: Unknown (PID: None)''"
  by (simp add: alert_line_def threat_message_def https_from_outside_def addr_str_def str_opt_def
      process_name_of_def str_nat_opt_def str_nat.simps digit_char_def char_of_def bit_Suc_0_iff)

text \<open>
  C2.  \<open>is_inbound_connection\<close> holds exactly when the status is \<open>ESTABLISHED\<close>, both
  addresses are present, the local address is one of the machine's own, the remote
  address is not, and the remote address is not a loopback address (it does not start
  with \<open>127.\<close>).  \<open>analyze_connection\<close> returns that verdict and writes a THREAT alert
  exactly then.  In particular a connection from a loopback address is never an inbound
  threat and writes no alert.
\<close>

theorem inbound_threat_classification:
  "(is_inbound_connection nm c \<longleftrightarrow>
      status c = ''ESTABLISHED''
      \<and> (\<exists>l r. laddr c = Some l \<and> raddr c = Some r
             \<and> ip l \<in> local_ips nm \<and> ip r \<notin> local_ips nm \<and> \<not> is_loopback (ip r)))
   \<and> fst (analyze_connection nm procs stamp c w) = is_inbound_connection nm c
   \<and> threat_alerts nm (snd (analyze_connection nm procs stamp c w)) =
       threat_alerts nm w @
         (if is_inbound_connection nm c then [alert_line stamp ''THREAT'' (threat_message procs c)] else [])
   \<and> (\<forall>r. raddr c = Some r \<and> is_loopback (ip r) \<longrightarrow>
          \<not> is_inbound_connection nm c
        \<and> threat_alerts nm (snd (analyze_connection nm procs stamp c w)) = threat_alerts nm w)"
  by (auto simp: analyze_connection_obs is_inbound_connection_iff)

theorem inbound_threat_classification_witness:
  "is_inbound_connection this_machine https_from_outside
   \<and> fst (analyze_connection this_machine no_processes ''2025-01-01 12:00:00'' https_from_outside [])
   \<and> threat_alerts this_machine
        (snd (analyze_connection this_machine no_processes ''2025-01-01 12:00:00'' https_from_outside [])) =
       [''[2025-01-01 12:00:00] [THREAT] INBOUND CONNECTION DETECTED - Remote IP: 203.0.113.7 attempting to connect to your machine at 192.168.1.10:443 | Process: Unknown (PID: None)'']
   \<and> status from_loopback = ''ESTABLISHED''
   \<and> ip \<lparr>ip = ''192.168.1.10'', port = 443\<rparr> \<in> local_ips this_machine
   \<and> \<not> is_inbound_connection this_machine from_loopback
   \<and> threat_alerts this_machine
        (snd (analyze_connection this_machine no_processes ''2025-01-01 12:00:00'' from_loopback [])) = []"
proof -
  note a = inbound_threat_classification[of this_machine https_from_outside no_processes
      "''2025-01-01 12:00:00''" "[]"]
  note b = inbound_threat_classification[of this_machine from_loopback no_processes
      "''2025-01-01 12:00:00''" "[]"]
  have e: "threat_alerts this_machine [] = []" by (simp add: threat_alerts_def)
  from a outside_is_inbound
  have 1: "fst (analyze_connection this_machine no_processes ''2025-01-01 12:00:00'' https_from_outside [])"
    and 2: "threat_alerts this_machine
        (snd (analyze_connection this_machine no_processes ''2025-01-01 12:00:00'' https_from_outside [])) =
       [alert_line ''2025-01-01 12:00:00'' ''THREAT'' (threat_message no_processes https_from_outside)]"
    unfolding e by simp_all
  from b loopback_remote
  have 3: "\<not> is_inbound_connection this_machine from_loopback"
    and 4: "threat_alerts this_machine
        (snd (analyze_connection this_machine no_processes ''2025-01-01 12:00:00'' from_loopback [])) = []"
    unfolding e by blast+
  from outside_is_inbound 1 2 3 4 loopback_remote show ?thesis
    unfolding outside_threat_message by blast
qed

lemma conn_id_None_iff: "conn_id c = None \<longleftrightarrow> laddr c = None"
  by (simp add: conn_id_def split: option.splits)

lemma monitor_conn_cases:
  "conn_id c = None \<Longrightarrow> monitor_conn nm procs stamp c s = s"
  "conn_id c = Some i \<Longrightarrow> i \<in> fst s \<Longrightarrow> monitor_conn nm procs stamp c s = s"
  "conn_id c = Some i \<Longrightarrow> i \<notin> fst s \<Longrightarrow>
     monitor_conn nm procs stamp c s =
       (insert i (fst s), snd (analyze_connection nm procs stamp c (snd s)))"
  by (simp_all add: monitor_conn_def)

lemma monitor_conn_seen_mono: "fst s \<subseteq> fst (monitor_conn nm procs stamp c s)"
  by (auto simp: monitor_conn_def split: option.splits)

lemma poll_seen_mono: "fst s \<subseteq> fst (poll nm procs stamp cs s)"
proof (induction cs arbitrary: s)
  case Nil
  show ?case by simp
next
  case (Cons c cs)
  from monitor_conn_seen_mono[of s nm procs stamp c] Cons[of "monitor_conn nm procs stamp c s"]
  show ?case by simp
qed

lemma poll_marks_seen:
  "c \<in> set cs \<Longrightarrow> conn_id c = Some i \<Longrightarrow> i \<in> fst (poll nm procs stamp cs s)"
proof (induction cs arbitrary: s)
  case Nil
  then show ?case by simp
next
  case (Cons d cs)
  show ?case
  proof (cases "c = d")
    case True
    with Cons.prems have "i \<in> fst (monitor_conn nm procs stamp d s)"
      by (simp add: monitor_conn_def)
    with poll_seen_mono[of "monitor_conn nm procs stamp d s" nm procs stamp cs]
    show ?thesis by auto
  next
    case False
    with Cons show ?thesis by simp
  qed
qed

lemma outside_conn_id:
  "conn_id https_from_outside = Some ''192.168.1.10:443-203.0.113.7:51422-ESTABLISHED''"
  by (simp add: conn_id_def https_from_outside_def str_nat.simps digit_char_def char_of_def bit_Suc_0_iff)

lemma outside_conn_info:
  "conn_info_of no_processes https_from_outside =
     ''Local: 192.168.1.10:443 | Remote: 203.0.113.7:51422 | Status: ESTABLISHED | Process: Unknown (PID: None)''"
  by (simp add: conn_info_of_def https_from_outside_def addr_str_def process_name_of_def str_nat_opt_def
      str_nat.simps digit_char_def char_of_def bit_Suc_0_iff)

text \<open>
  C7, as the code has it.  A connection without a local address is skipped by the loop
  and leaves no trace; a connection whose identifier is already in the seen set is
  skipped as well.  A connection with a local address and a new identifier is written
  to the evidence log, one line, whatever its classification, and its identifier joins
  the seen set.  After a poll the identifier of every connection of that poll that has
  a local address is in the seen set.
\<close>

theorem connection_logged_at_first_sight:
  "(laddr c = None \<longrightarrow> monitor_conn nm procs stamp c s = s)
   \<and> (\<forall>i. conn_id c = Some i \<and> i \<in> fst s \<longrightarrow> monitor_conn nm procs stamp c s = s)
   \<and> (\<forall>i. conn_id c = Some i \<and> i \<notin> fst s \<longrightarrow>
          fst (monitor_conn nm procs stamp c s) = insert i (fst s)
        \<and> connection_evidence nm (snd (monitor_conn nm procs stamp c s)) =
            connection_evidence nm (snd s) @ [''['' @ stamp @ ''] '' @ conn_info_of procs c])
   \<and> (\<forall>d\<in>set cs. \<forall>i. conn_id d = Some i \<longrightarrow> i \<in> fst (poll nm procs stamp cs s))"
  by (auto simp: monitor_conn_cases analyze_connection_obs conn_id_None_iff[symmetric] poll_marks_seen)

theorem connection_logged_at_first_sight_witness:
  "laddr unbound_socket = None
   \<and> monitor_conn this_machine no_processes ''2025-01-01 12:00:00'' unbound_socket ({}, []) = ({}, [])
   \<and> conn_id https_from_outside = Some ''192.168.1.10:443-203.0.113.7:51422-ESTABLISHED''
   \<and> connection_evidence this_machine
        (snd (monitor_conn this_machine no_processes ''2025-01-01 12:00:00'' https_from_outside ({}, []))) =
      [''[2025-01-01 12:00:00] Local: 192.168.1.10:443 | Remote: 203.0.113.7:51422 | Status: ESTABLISHED | Process: Unknown (PID: None)'']
   \<and> ''192.168.1.10:443-203.0.113.7:51422-ESTABLISHED''
        \<in> fst (poll this_machine no_processes ''2025-01-01 12:00:00'' [unbound_socket, https_from_outside] ({}, []))"
proof -
  have u: "laddr unbound_socket = None" by (simp add: unbound_socket_def)
  note t = connection_logged_at_first_sight[of _ this_machine no_processes "''2025-01-01 12:00:00''" "({}, [])"]
  from t[of unbound_socket] u
  have 1: "monitor_conn this_machine no_processes ''2025-01-01 12:00:00'' unbound_socket ({}, []) = ({}, [])"
    by blast
  from t[of https_from_outside] outside_conn_id
  have 2: "connection_evidence this_machine
        (snd (monitor_conn this_machine no_processes ''2025-01-01 12:00:00'' https_from_outside ({}, []))) =
      connection_evidence this_machine (snd ({}, [])) @
        [''['' @ ''2025-01-01 12:00:00'' @ ''] '' @ conn_info_of no_processes https_from_outside]"
    by simp
  from t[of _ "[unbound_socket, https_from_outside]"] outside_conn_id
  have 3: "''192.168.1.10:443-203.0.113.7:51422-ESTABLISHED''
        \<in> fst (poll this_machine no_processes ''2025-01-01 12:00:00'' [unbound_socket, https_from_outside] ({}, []))"
    by (simp del: poll.simps)
  from u 1 2 3 outside_conn_id show ?thesis
    by (simp add: outside_conn_info connection_evidence_def[of _ "[]"] del: poll.simps)
qed

text \<open>
  C7 as stated does not hold: a connection without a local address is observed and no
  evidence line is written, and a connection observed in two polls is logged once.
\<close>

theorem unbound_socket_never_logged:
  "connection_evidence this_machine
     (monitor this_machine no_processes ''2025-01-01 12:00:00'' [[unbound_socket]] []) = []
   \<and> connection_evidence this_machine
     (monitor this_machine no_processes ''2025-01-01 12:00:00''
        [[https_from_outside], [https_from_outside]] []) =
     [''[2025-01-01 12:00:00] Local: 192.168.1.10:443 | Remote: 203.0.113.7:51422 | Status: ESTABLISHED | Process: Unknown (PID: None)'']"
proof -
  have 1: "monitor this_machine no_processes ''2025-01-01 12:00:00'' [[unbound_socket]] [] = []"
    by (simp add: monitor_def monitor_conn_def conn_id_def unbound_socket_def)
  let ?s1 = "monitor_conn this_machine no_processes ''2025-01-01 12:00:00'' https_from_outside ({}, [])"
  have s1: "?s1 = ({''192.168.1.10:443-203.0.113.7:51422-ESTABLISHED''},
      snd (analyze_connection this_machine no_processes ''2025-01-01 12:00:00'' https_from_outside []))"
    using monitor_conn_cases(3)[OF outside_conn_id, of "({}, [])"] by simp
  have s2: "monitor_conn this_machine no_processes ''2025-01-01 12:00:00'' https_from_outside ?s1 = ?s1"
    by (rule monitor_conn_cases(2)[OF outside_conn_id]) (simp add: s1)
  have "monitor this_machine no_processes ''2025-01-01 12:00:00''
        [[https_from_outside], [https_from_outside]] [] = snd ?s1"
    by (simp add: monitor_def s2)
  then have 2: "connection_evidence this_machine
     (monitor this_machine no_processes ''2025-01-01 12:00:00''
        [[https_from_outside], [https_from_outside]] []) =
     [''['' @ ''2025-01-01 12:00:00'' @ ''] '' @ conn_info_of no_processes https_from_outside]"
    by (simp add: s1 analyze_connection_obs connection_evidence_def[of _ "[]"])
  from 1 2 show ?thesis
    by (simp add: outside_conn_info connection_evidence_def[of _ "[]"])
qed

section \<open>Facts about the alert system\<close>

lemma popups_append [simp]: "popups (u @ v) = popups u @ popups v"
  by (induction u rule: popups.induct) simp_all

lemma bells_append [simp]: "bells (u @ v) = bells u @ bells v"
  by (induction u rule: bells.induct) simp_all

lemma popups_console [simp]: "popups (console_alert sev m) = []"
  by (simp add: console_alert_def)

lemma bells_console [simp]: "bells (console_alert sev m) = []"
  by (simp add: console_alert_def)

lemma ring_bells_trace:
  "\<exists>rs. snd (ring_bells e n w) = w @ map Bell rs \<and> (0 < n \<longrightarrow> rs \<noteq> [])"
proof (induction n arbitrary: w)
  case 0
  show ?case by (rule exI[of _ "[]"]) simp
next
  case (Suc n)
  show ?case
  proof (cases "stdout_bell e w")
    case None
    from Suc[of "w @ [Bell None]"] obtain rs
      where "snd (ring_bells e n (w @ [Bell None])) = (w @ [Bell None]) @ map Bell rs" by blast
    with None show ?thesis
      by (intro exI[of _ "None # rs"]) simp
  next
    case (Some x)
    then show ?thesis
      by (intro exI[of _ "[Some x]"]) simp
  qed
qed

lemma file_lines_bells [simp]: "file_lines f (map Bell rs) = []"
  by (induction rs) simp_all

lemma popups_bells [simp]: "popups (map Bell rs) = []"
  by (induction rs) simp_all

lemma bells_bells [simp]: "bells (map Bell rs) = rs"
  by (induction rs) simp_all

lemma play_alert_sound_trace:
  "\<exists>rs ps. play_alert_sound e w = w @ map Bell rs @ map Paplay ps \<and> rs \<noteq> []"
proof -
  obtain x w1 where r: "ring_bells e 3 w = (x, w1)" by (cases "ring_bells e 3 w")
  from ring_bells_trace[of e 3 w] r obtain rs
    where rs: "w1 = w @ map Bell rs" "rs \<noteq> []" by auto
  show ?thesis
  proof (cases x)
    case None
    with r rs have "play_alert_sound e w = w @ map Bell rs @ map Paplay [run_paplay e w1]"
      by (simp add: play_alert_sound_def)
    with rs(2) show ?thesis by blast
  next
    case (Some y)
    with r rs have "play_alert_sound e w = w @ map Bell rs @ map Paplay []"
      by (simp add: play_alert_sound_def)
    with rs(2) show ?thesis by blast
  qed
qed

lemma file_lines_paplay [simp]: "file_lines f (map Paplay rs) = []"
  by (induction rs) simp_all

lemma popups_paplay [simp]: "popups (map Paplay rs) = []"
  by (induction rs) simp_all

lemma bells_paplay [simp]: "bells (map Paplay rs) = []"
  by (induction rs) simp_all

lemma play_alert_sound_obs:
  "file_lines f (play_alert_sound e w) = file_lines f w"
  "popups (play_alert_sound e w) = popups w"
  "length (bells w) < length (bells (play_alert_sound e w))"
  "prefix w (play_alert_sound e w)"
  using play_alert_sound_trace[of e w] by auto

lemma send_desktop_notification_obs:
  "file_lines f (send_desktop_notification e t m w) = file_lines f w"
  "length (popups (send_desktop_notification e t m w)) = Suc (length (popups w))"
  "bells (send_desktop_notification e t m w) = bells w"
  "prefix w (send_desktop_notification e t m w)"
  by (simp_all add: send_desktop_notification_def Let_def)

lemma file_lines_prints [simp]: "file_lines f (map Print ps) = []"
  by (induction ps) simp_all

lemma popups_prints [simp]: "popups (map Print ps) = []"
  by (induction ps) simp_all

lemma bells_prints [simp]: "bells (map Print ps) = []"
  by (induction ps) simp_all

lemma print_line_cases:
  "stdout_print e t w = None \<Longrightarrow> print_line e t w = (None, w @ [Print t])"
  "stdout_print e t w = Some x \<Longrightarrow> print_line e t w = (Some x, w)"
  by (simp_all add: print_line_def)

lemma append_line_cases:
  "file_append e p l w = None \<Longrightarrow> append_line e p l w = (None, w @ [Append p l])"
  "file_append e p l w = Some x \<Longrightarrow> append_line e p l w = (Some x, w)"
  by (simp_all add: append_line_def)

lemma print_line_trace:
  "\<exists>ps. snd (print_line e t w) = w @ map Print ps \<and> (fst (print_line e t w) \<noteq> None \<or> ps = [t])"
proof (cases "stdout_print e t w")
  case None
  then show ?thesis by (intro exI[of _ "[t]"]) (simp add: print_line_cases)
next
  case (Some x)
  then show ?thesis by (intro exI[of _ "[]"]) (simp add: print_line_cases)
qed

text \<open>The unguarded tail of \<open>send_alert\<close>: three prints and the line for the log.\<close>

lemma sink_tail_trace:
  fixes e t1 t2 t3 p l w2
  defines "r \<equiv> and_then (print_line e t1 w2) (\<lambda>w3.
         and_then (print_line e t2 w3) (\<lambda>w4.
         and_then (print_line e t3 w4) (\<lambda>w5.
         append_line e p l w5)))"
  shows "\<exists>ps. snd r = w2 @ map Print ps @ (if fst r = None then [Append p l] else [])"
proof (cases "stdout_print e t1 w2")
  case (Some x)
  then have "r = (Some x, w2)" by (simp add: r_def and_then_def print_line_def)
  then show ?thesis by (intro exI[of _ "[]"]) simp
next
  case n1: None
  show ?thesis
  proof (cases "stdout_print e t2 (w2 @ [Print t1])")
    case (Some x)
    with n1 have "r = (Some x, w2 @ [Print t1])"
      by (simp add: r_def and_then_def print_line_def)
    then show ?thesis by (intro exI[of _ "[t1]"]) simp
  next
    case n2: None
    show ?thesis
    proof (cases "stdout_print e t3 (w2 @ [Print t1, Print t2])")
      case (Some x)
      with n1 n2 have "r = (Some x, w2 @ [Print t1, Print t2])"
        by (simp add: r_def and_then_def print_line_def)
      then show ?thesis by (intro exI[of _ "[t1, t2]"]) simp
    next
      case n3: None
      show ?thesis
      proof (cases "file_append e p l (w2 @ [Print t1, Print t2, Print t3])")
        case (Some x)
        with n1 n2 n3 have "r = (Some x, w2 @ [Print t1, Print t2, Print t3])"
          by (simp add: r_def and_then_def print_line_def append_line_def)
        then show ?thesis by (intro exI[of _ "[t1, t2, t3]"]) simp
      next
        case None
        with n1 n2 n3 have "r = (None, w2 @ [Print t1, Print t2, Print t3, Append p l])"
          by (simp add: r_def and_then_def print_line_def append_line_def)
        then show ?thesis by (intro exI[of _ "[t1, t2, t3]"]) simp
      qed
    qed
  qed
qed

lemma sink_tail_ok:
  assumes "sinks_work e"
  shows "fst (and_then (print_line e t1 w2) (\<lambda>w3.
         and_then (print_line e t2 w3) (\<lambda>w4.
         and_then (print_line e t3 w4) (\<lambda>w5.
         append_line e p l w5)))) = None"
  using assms by (simp add: sinks_work_def and_then_def print_line_def append_line_def)

lemma send_alert_trace:
  "\<exists>ps. snd (send_alert a e stamp message severity play_sound notify w) =
      (if notify
       then send_desktop_notification e (siren @ '' '' @ severity)
              (if length message > 200 then take 200 message @ ''...'' else message)
              (if play_sound then play_alert_sound e w else w)
       else (if play_sound then play_alert_sound e w else w))
      @ map Print ps
      @ (if fst (send_alert a e stamp message severity play_sound notify w) = None
         then [Append (alerts_log a) (alert_line stamp severity message)] else [])"
  unfolding send_alert_def Let_def by (rule sink_tail_trace)

lemma send_alert_file_lines:
  "file_lines f (snd (send_alert a e stamp message severity play_sound notify w)) =
     file_lines f w @
       (if f = alerts_log a \<and> fst (send_alert a e stamp message severity play_sound notify w) = None
        then [alert_line stamp severity message] else [])"
proof -
  from send_alert_trace[of a e stamp message severity play_sound notify w]
  obtain ps where "snd (send_alert a e stamp message severity play_sound notify w) =
      (if notify
       then send_desktop_notification e (siren @ '' '' @ severity)
              (if length message > 200 then take 200 message @ ''...'' else message)
              (if play_sound then play_alert_sound e w else w)
       else (if play_sound then play_alert_sound e w else w))
      @ map Print ps
      @ (if fst (send_alert a e stamp message severity play_sound notify w) = None
         then [Append (alerts_log a) (alert_line stamp severity message)] else [])" ..
  then show ?thesis
    by (simp add: play_alert_sound_obs send_desktop_notification_obs)
qed


lemma send_alert_bells:
  "play_sound \<Longrightarrow>
     length (bells w) < length (bells (snd (send_alert a e stamp message severity play_sound notify w)))"
  "\<not> play_sound \<Longrightarrow>
     bells (snd (send_alert a e stamp message severity play_sound notify w)) = bells w"
proof -
  from send_alert_trace[of a e stamp message severity play_sound notify w]
  obtain ps where t: "snd (send_alert a e stamp message severity play_sound notify w) =
      (if notify
       then send_desktop_notification e (siren @ '' '' @ severity)
              (if length message > 200 then take 200 message @ ''...'' else message)
              (if play_sound then play_alert_sound e w else w)
       else (if play_sound then play_alert_sound e w else w))
      @ map Print ps
      @ (if fst (send_alert a e stamp message severity play_sound notify w) = None
         then [Append (alerts_log a) (alert_line stamp severity message)] else [])" ..
  show "play_sound \<Longrightarrow>
     length (bells w) < length (bells (snd (send_alert a e stamp message severity play_sound notify w)))"
    using play_alert_sound_obs(3)[of w e] unfolding t
    by (simp add: send_desktop_notification_obs)
  show "\<not> play_sound \<Longrightarrow>
     bells (snd (send_alert a e stamp message severity play_sound notify w)) = bells w"
    unfolding t by (simp add: send_desktop_notification_obs)
qed


lemma send_alert_ok:
  "sinks_work e \<Longrightarrow> fst (send_alert a e stamp message severity play_sound notify w) = None"
  unfolding send_alert_def Let_def by (rule sink_tail_ok)

lemma sinks_work_examples: "sinks_work healthy" "sinks_work all_channels_fail"
  by (simp_all add: sinks_work_def healthy_def all_channels_fail_def)





section \<open>Facts about the file monitor\<close>

lemma alerts_not_file_access [simp]:
  "alerts_log a \<noteq> file_access_log fm" "file_access_log fm \<noteq> alerts_log a"
proof -
  show "alerts_log a \<noteq> file_access_log fm"
    unfolding alerts_log_def file_access_log_def
    by (rule path_join_neq) (simp_all add: suffix_to_prefix)
  then show "file_access_log fm \<noteq> alerts_log a" by (rule not_sym)
qed

lemma should_alert_cases:
  "recently_alerted fm now k \<Longrightarrow> should_alert fm now k = (False, fm)"
  "\<not> recently_alerted fm now k \<Longrightarrow>
     should_alert fm now k = (True, fm\<lparr>recent_events := (recent_events fm)(k \<mapsto> now)\<rparr>)"
  by (auto simp: should_alert_def recently_alerted_def split: option.splits)

lemma file_logs_update [simp]:
  "file_access_log (fm\<lparr>recent_events := x\<rparr>) = file_access_log fm"
  by (simp add: file_access_log_def)

lemma log_file_event_ok:
  "sinks_work e \<Longrightarrow> log_file_event e fm stamp ty path w =
     (None, w @ [Append (file_access_log fm) (''['' @ stamp @ ''] '' @ ty @ '': '' @ path)])"
  by (simp add: log_file_event_def append_line_def sinks_work_def)

lemma on_deleted_obs:
  assumes "sinks_work e" "\<not> is_directory ev"
  shows "fst (on_deleted e now stamp ev s) = None"
    and "fst (snd (on_deleted e now stamp ev s)) = fst s"
    and "file_alerts (snd (on_deleted e now stamp ev s)) =
           file_alerts s @ [alert_line stamp ''FILE_DELETED'' (''FILE DELETION DETECTED: '' @ src_path ev)]"
    and "length (bells (snd s)) < length (bells (snd (snd (on_deleted e now stamp ev s))))"
    and "file_evidence (snd (on_deleted e now stamp ev s)) =
           file_evidence s @ [''['' @ stamp @ ''] DELETED: '' @ src_path ev]"
  using assms
    send_alert_bells(1)[of True "snd s @ [Append (file_access_log (fst s)) (''['' @ stamp @ ''] '' @ ''DELETED'' @ '': '' @ src_path ev)]"
      "fm_alert_system (fst s)" e stamp "''FILE DELETION DETECTED: '' @ src_path ev" "''FILE_DELETED''" True]
  by (simp_all add: on_deleted_def Let_def file_alerts_def file_evidence_def send_alert_file_lines
      log_file_event_ok send_alert_ok)

lemma on_modified_suppressed:
  assumes "sinks_work e" "\<not> is_directory ev" "recently_alerted (fst s) now (''modified:'' @ src_path ev)"
  shows "fst (on_modified e now stamp ev s) = None"
    and "fst (snd (on_modified e now stamp ev s)) = fst s"
    and "file_alerts (snd (on_modified e now stamp ev s)) = file_alerts s"
    and "bells (snd (snd (on_modified e now stamp ev s))) = bells (snd s)"
    and "popups (snd (snd (on_modified e now stamp ev s))) = popups (snd s)"
    and "file_evidence (snd (on_modified e now stamp ev s)) =
           file_evidence s @ [''['' @ stamp @ ''] MODIFIED: '' @ src_path ev]"
  using assms
  by (simp_all add: on_modified_def Let_def file_alerts_def file_evidence_def should_alert_cases
      log_file_event_ok)

lemma on_modified_alerts:
  assumes "sinks_work e" "\<not> is_directory ev" "\<not> recently_alerted (fst s) now (''modified:'' @ src_path ev)"
  shows "fst (on_modified e now stamp ev s) = None"
    and "fst (snd (on_modified e now stamp ev s)) =
           (fst s)\<lparr>recent_events := (recent_events (fst s))((''modified:'' @ src_path ev) \<mapsto> now)\<rparr>"
    and "file_alerts (snd (on_modified e now stamp ev s)) =
           file_alerts s @ [alert_line stamp ''FILE_MODIFIED'' (''File modified: '' @ src_path ev)]"
    and "bells (snd (snd (on_modified e now stamp ev s))) = bells (snd s)"
    and "file_evidence (snd (on_modified e now stamp ev s)) =
           file_evidence s @ [''['' @ stamp @ ''] MODIFIED: '' @ src_path ev]"
  using assms
  by (simp_all add: on_modified_def Let_def file_alerts_def file_evidence_def should_alert_cases
      log_file_event_ok send_alert_file_lines send_alert_bells send_alert_ok)

lemma on_created_suppressed:
  assumes "sinks_work e" "\<not> is_directory ev" "recently_alerted (fst s) now (''created:'' @ src_path ev)"
  shows "fst (on_created e now stamp ev s) = None"
    and "fst (snd (on_created e now stamp ev s)) = fst s"
    and "file_alerts (snd (on_created e now stamp ev s)) = file_alerts s"
    and "bells (snd (snd (on_created e now stamp ev s))) = bells (snd s)"
    and "popups (snd (snd (on_created e now stamp ev s))) = popups (snd s)"
    and "file_evidence (snd (on_created e now stamp ev s)) =
           file_evidence s @ [''['' @ stamp @ ''] CREATED: '' @ src_path ev]"
  using assms
  by (simp_all add: on_created_def Let_def file_alerts_def file_evidence_def should_alert_cases
      log_file_event_ok)

lemma on_created_alerts:
  assumes "sinks_work e" "\<not> is_directory ev" "\<not> recently_alerted (fst s) now (''created:'' @ src_path ev)"
  shows "fst (on_created e now stamp ev s) = None"
    and "fst (snd (on_created e now stamp ev s)) =
           (fst s)\<lparr>recent_events := (recent_events (fst s))((''created:'' @ src_path ev) \<mapsto> now)\<rparr>"
    and "file_alerts (snd (on_created e now stamp ev s)) =
           file_alerts s @ [alert_line stamp ''FILE_CREATED'' (''File created: '' @ src_path ev)]"
    and "bells (snd (snd (on_created e now stamp ev s))) = bells (snd s)"
    and "file_evidence (snd (on_created e now stamp ev s)) =
           file_evidence s @ [''['' @ stamp @ ''] CREATED: '' @ src_path ev]"
  using assms
  by (simp_all add: on_created_def Let_def file_alerts_def file_evidence_def should_alert_cases
      log_file_event_ok send_alert_file_lines send_alert_bells send_alert_ok)

lemma for_each_step:
  "fst (f x s) = None \<Longrightarrow> for_each f (x # xs) s = for_each f xs (snd (f x s))"
  by (cases "f x s") simp

lemma for_each_raise:
  "fst (f x s) = Some ex \<Longrightarrow> for_each f (x # xs) s = f x s"
  by (cases "f x s") simp

lemma for_each_Nil: "for_each f [] s = (None, s)"
  by simp

declare for_each.simps [simp del]

lemma modifications_run:
  assumes ok: "sinks_work e" and nd: "\<not> is_directory ev"
  shows "fst (modifications e ev ts s) = None
    \<and> file_alerts (snd (modifications e ev ts s)) =
        file_alerts s @
          map (\<lambda>t. alert_line (snd t) ''FILE_MODIFIED'' (''File modified: '' @ src_path ev))
            (alerting (event_window (fst s)) (recent_events (fst s) (''modified:'' @ src_path ev)) ts)
    \<and> file_evidence (snd (modifications e ev ts s)) =
        file_evidence s @ map (\<lambda>t. ''['' @ snd t @ ''] MODIFIED: '' @ src_path ev) ts"
proof (induction ts arbitrary: s)
  case Nil
  show ?case by (simp add: modifications_def for_each_Nil)
next
  case (Cons t ts)
  let ?k = "''modified:'' @ src_path ev"
  let ?r = "on_modified e (fst t) (snd t) ev s"
  let ?s1 = "snd ?r"
  show ?case
  proof (cases "recently_alerted (fst s) (fst t) ?k")
    case True
    note o = on_modified_suppressed[OF ok nd True, of "snd t"]
    have step: "modifications e ev (t # ts) s = modifications e ev ts ?s1"
      unfolding modifications_def using o(1) by (simp add: for_each_step)
    have skip: "alerting (event_window (fst s)) (recent_events (fst s) ?k) (t # ts) =
        alerting (event_window (fst s)) (recent_events (fst s) ?k) ts"
      using True by (simp add: recently_alerted_def)
    from Cons[of ?s1] show ?thesis
      unfolding step skip by (simp add: o)
  next
    case False
    note o = on_modified_alerts[OF ok nd False, of "snd t"]
    have step: "modifications e ev (t # ts) s = modifications e ev ts ?s1"
      unfolding modifications_def using o(1) by (simp add: for_each_step)
    have keep: "alerting (event_window (fst s)) (recent_events (fst s) ?k) (t # ts) =
        t # alerting (event_window (fst s)) (Some (fst t)) ts"
      using False by (simp add: recently_alerted_def)
    from Cons[of ?s1] show ?thesis
      unfolding step keep by (simp add: o)
  qed
qed

lemma three_modifications:
  "alerting (event_window (FileAccessMonitor_init ''logs'' []))
     (recent_events (FileAccessMonitor_init ''logs'' []) (''modified:'' @ src_path report_txt))
     [(100, ''2025-01-01 12:00:00''), (503 / 5, ''2025-01-01 12:00:01''), (506 / 5, ''2025-01-01 12:00:02'')]
   = [(100, ''2025-01-01 12:00:00''), (506 / 5, ''2025-01-01 12:00:02'')]"
  by (simp add: FileAccessMonitor_init_def)

text \<open>
  C5.  The terminal and the log files accept their writes, and the event is not a
  directory event.  A deletion always writes its alert, whatever \<open>recent_events\<close>
  holds, with the sound requested (a bell is attempted); it is written to the evidence
  log and leaves the monitor, \<open>recent_events\<close> included, as it was.  A modification
  (and likewise a creation) whose key \<open>kind:path\<close> is recorded less than
  \<open>event_window\<close> (one second) ago writes no alert, rings no bell, opens no pop-up and
  leaves the monitor as it was, so a suppressed event does not extend the suppression;
  it is still written to the evidence log.  Otherwise it writes its alert without any
  bell and records the time for its key, and nothing else changes in the monitor.
  Hence the time recorded for a key is the time of the last alert for it: in a run of
  modifications of one file, those that alert are exactly those not less than one
  second after the last that alerted, and every one of them is in the evidence log.
\<close>

theorem file_event_alert_policy:
  assumes "sinks_work e" and "\<not> is_directory ev"
  shows
   "fst (on_deleted e now stamp ev s) = None
    \<and> fst (snd (on_deleted e now stamp ev s)) = fst s
    \<and> file_alerts (snd (on_deleted e now stamp ev s)) =
        file_alerts s @ [alert_line stamp ''FILE_DELETED'' (''FILE DELETION DETECTED: '' @ src_path ev)]
    \<and> length (bells (snd s)) < length (bells (snd (snd (on_deleted e now stamp ev s))))
    \<and> file_evidence (snd (on_deleted e now stamp ev s)) =
        file_evidence s @ [''['' @ stamp @ ''] DELETED: '' @ src_path ev]
    \<and> (recently_alerted (fst s) now (''modified:'' @ src_path ev) \<longrightarrow>
          fst (on_modified e now stamp ev s) = None
        \<and> fst (snd (on_modified e now stamp ev s)) = fst s
        \<and> file_alerts (snd (on_modified e now stamp ev s)) = file_alerts s
        \<and> bells (snd (snd (on_modified e now stamp ev s))) = bells (snd s)
        \<and> popups (snd (snd (on_modified e now stamp ev s))) = popups (snd s)
        \<and> file_evidence (snd (on_modified e now stamp ev s)) =
            file_evidence s @ [''['' @ stamp @ ''] MODIFIED: '' @ src_path ev])
    \<and> (\<not> recently_alerted (fst s) now (''modified:'' @ src_path ev) \<longrightarrow>
          fst (on_modified e now stamp ev s) = None
        \<and> fst (snd (on_modified e now stamp ev s)) =
            (fst s)\<lparr>recent_events := (recent_events (fst s))((''modified:'' @ src_path ev) \<mapsto> now)\<rparr>
        \<and> file_alerts (snd (on_modified e now stamp ev s)) =
            file_alerts s @ [alert_line stamp ''FILE_MODIFIED'' (''File modified: '' @ src_path ev)]
        \<and> bells (snd (snd (on_modified e now stamp ev s))) = bells (snd s)
        \<and> file_evidence (snd (on_modified e now stamp ev s)) =
            file_evidence s @ [''['' @ stamp @ ''] MODIFIED: '' @ src_path ev])
    \<and> (recently_alerted (fst s) now (''created:'' @ src_path ev) \<longrightarrow>
          fst (on_created e now stamp ev s) = None
        \<and> fst (snd (on_created e now stamp ev s)) = fst s
        \<and> file_alerts (snd (on_created e now stamp ev s)) = file_alerts s
        \<and> bells (snd (snd (on_created e now stamp ev s))) = bells (snd s)
        \<and> popups (snd (snd (on_created e now stamp ev s))) = popups (snd s)
        \<and> file_evidence (snd (on_created e now stamp ev s)) =
            file_evidence s @ [''['' @ stamp @ ''] CREATED: '' @ src_path ev])
    \<and> (\<not> recently_alerted (fst s) now (''created:'' @ src_path ev) \<longrightarrow>
          fst (on_created e now stamp ev s) = None
        \<and> fst (snd (on_created e now stamp ev s)) =
            (fst s)\<lparr>recent_events := (recent_events (fst s))((''created:'' @ src_path ev) \<mapsto> now)\<rparr>
        \<and> file_alerts (snd (on_created e now stamp ev s)) =
            file_alerts s @ [alert_line stamp ''FILE_CREATED'' (''File created: '' @ src_path ev)]
        \<and> bells (snd (snd (on_created e now stamp ev s))) = bells (snd s)
        \<and> file_evidence (snd (on_created e now stamp ev s)) =
            file_evidence s @ [''['' @ stamp @ ''] CREATED: '' @ src_path ev])
    \<and> fst (modifications e ev ts s) = None
    \<and> file_alerts (snd (modifications e ev ts s)) =
        file_alerts s @
          map (\<lambda>t. alert_line (snd t) ''FILE_MODIFIED'' (''File modified: '' @ src_path ev))
            (alerting (event_window (fst s)) (recent_events (fst s) (''modified:'' @ src_path ev)) ts)
    \<and> file_evidence (snd (modifications e ev ts s)) =
        file_evidence s @ map (\<lambda>t. ''['' @ snd t @ ''] MODIFIED: '' @ src_path ev) ts"
  using on_deleted_obs[OF assms, where now=now and stamp=stamp and s=s]
    on_modified_suppressed[OF assms, where now=now and stamp=stamp and s=s]
    on_modified_alerts[OF assms, where now=now and stamp=stamp and s=s]
    on_created_suppressed[OF assms, where now=now and stamp=stamp and s=s]
    on_created_alerts[OF assms, where now=now and stamp=stamp and s=s]
    modifications_run[OF assms, where ts=ts and s=s]
  by (intro conjI impI) blast+

theorem file_event_alert_policy_witness:
  "sinks_work all_channels_fail \<and> \<not> is_directory report_txt
   \<and> file_alerts (snd (modifications all_channels_fail report_txt
        [(100, ''2025-01-01 12:00:00''), (503 / 5, ''2025-01-01 12:00:01''), (506 / 5, ''2025-01-01 12:00:02'')]
        (FileAccessMonitor_init ''logs'' [], [])))
       = [''[2025-01-01 12:00:00] [FILE_MODIFIED] File modified: /home/u/Documents/report.txt'',
          ''[2025-01-01 12:00:02] [FILE_MODIFIED] File modified: /home/u/Documents/report.txt'']
   \<and> file_evidence (snd (modifications all_channels_fail report_txt
        [(100, ''2025-01-01 12:00:00''), (503 / 5, ''2025-01-01 12:00:01''), (506 / 5, ''2025-01-01 12:00:02'')]
        (FileAccessMonitor_init ''logs'' [], [])))
       = [''[2025-01-01 12:00:00] MODIFIED: /home/u/Documents/report.txt'',
          ''[2025-01-01 12:00:01] MODIFIED: /home/u/Documents/report.txt'',
          ''[2025-01-01 12:00:02] MODIFIED: /home/u/Documents/report.txt'']
   \<and> recently_alerted
        (fst (snd (on_modified all_channels_fail 100 ''2025-01-01 12:00:00'' report_txt
           (FileAccessMonitor_init ''logs'' [], []))))
        (503 / 5) (''deleted:'' @ src_path report_txt) = False
   \<and> file_alerts (snd (on_deleted all_channels_fail (503 / 5) ''2025-01-01 12:00:01'' report_txt
        (snd (on_modified all_channels_fail 100 ''2025-01-01 12:00:00'' report_txt
           (FileAccessMonitor_init ''logs'' [], [])))))
       = [''[2025-01-01 12:00:00] [FILE_MODIFIED] File modified: /home/u/Documents/report.txt'',
          ''[2025-01-01 12:00:01] [FILE_DELETED] FILE DELETION DETECTED: /home/u/Documents/report.txt'']"
proof -
  let ?e = all_channels_fail
  let ?s0 = "(FileAccessMonitor_init ''logs'' [], []) :: FileAccessMonitor \<times> world"
  let ?ts = "[(100, ''2025-01-01 12:00:00''), (503 / 5, ''2025-01-01 12:00:01''),
              (506 / 5, ''2025-01-01 12:00:02'')] :: (real \<times> string) list"
  let ?s1 = "snd (on_modified ?e 100 ''2025-01-01 12:00:00'' report_txt ?s0)"
  have ok: "sinks_work ?e" by (rule sinks_work_examples(2))
  have nd: "\<not> is_directory report_txt" by (simp add: report_txt_def)
  have p: "src_path report_txt = ''/home/u/Documents/report.txt''" by (simp add: report_txt_def)
  have a0: "file_alerts ?s0 = []" "file_evidence ?s0 = []"
    by (simp_all add: file_alerts_def file_evidence_def)
  have m1: "\<not> recently_alerted (fst ?s0) 100 (''modified:'' @ src_path report_txt)"
    by (simp add: recently_alerted_def FileAccessMonitor_init_def)
  note run = file_event_alert_policy[OF ok nd, where now=100 and stamp="''2025-01-01 12:00:00''"
      and s="?s0" and ts="?ts"]
  from run have r1: "file_alerts (snd (modifications ?e report_txt ?ts ?s0)) =
      file_alerts ?s0 @
          map (\<lambda>t. alert_line (snd t) ''FILE_MODIFIED'' (''File modified: '' @ src_path report_txt))
            (alerting (event_window (fst ?s0))
               (recent_events (fst ?s0) (''modified:'' @ src_path report_txt)) ?ts)"
    and r2: "file_evidence (snd (modifications ?e report_txt ?ts ?s0)) =
      file_evidence ?s0 @ map (\<lambda>t. ''['' @ snd t @ ''] MODIFIED: '' @ src_path report_txt) ?ts"
    by blast+
  from run m1 have a1: "file_alerts ?s1 =
      file_alerts ?s0 @ [alert_line ''2025-01-01 12:00:00'' ''FILE_MODIFIED'' (''File modified: '' @ src_path report_txt)]"
    by blast
  note del = file_event_alert_policy[OF ok nd, where now="503 / 5" and stamp="''2025-01-01 12:00:01''"
      and s="?s1" and ts="[]"]
  from del have d: "file_alerts (snd (on_deleted ?e (503 / 5) ''2025-01-01 12:00:01'' report_txt ?s1)) =
      file_alerts ?s1 @ [alert_line ''2025-01-01 12:00:01'' ''FILE_DELETED''
         (''FILE DELETION DETECTED: '' @ src_path report_txt)]"
    by blast
  have three: "alerting (event_window (fst ?s0))
      (recent_events (fst ?s0) (''modified:'' @ src_path report_txt)) ?ts
      = [(100, ''2025-01-01 12:00:00''), (506 / 5, ''2025-01-01 12:00:02'')]"
    using three_modifications by simp
  have nk: "recently_alerted (fst ?s1) (503 / 5) (''deleted:'' @ src_path report_txt) = False"
    using run m1 by (simp add: recently_alerted_def FileAccessMonitor_init_def p)
  have A: "file_alerts (snd (modifications ?e report_txt ?ts ?s0))
       = [''[2025-01-01 12:00:00] [FILE_MODIFIED] File modified: /home/u/Documents/report.txt'',
          ''[2025-01-01 12:00:02] [FILE_MODIFIED] File modified: /home/u/Documents/report.txt'']"
    unfolding r1 three a0 by (simp add: p alert_line_def)
  have B: "file_evidence (snd (modifications ?e report_txt ?ts ?s0))
       = [''[2025-01-01 12:00:00] MODIFIED: /home/u/Documents/report.txt'',
          ''[2025-01-01 12:00:01] MODIFIED: /home/u/Documents/report.txt'',
          ''[2025-01-01 12:00:02] MODIFIED: /home/u/Documents/report.txt'']"
    unfolding r2 a0 by (simp add: p)
  have C: "file_alerts (snd (on_deleted ?e (503 / 5) ''2025-01-01 12:00:01'' report_txt ?s1))
       = [''[2025-01-01 12:00:00] [FILE_MODIFIED] File modified: /home/u/Documents/report.txt'',
          ''[2025-01-01 12:00:01] [FILE_DELETED] FILE DELETION DETECTED: /home/u/Documents/report.txt'']"
    unfolding d a1 a0 by (simp add: p alert_line_def)
  from ok nd A B nk C show ?thesis by (intro conjI)
qed

section \<open>Facts about the process monitor\<close>

lemma alerts_not_process_log [simp]:
  "alerts_log a \<noteq> process_monitor_log pm" "process_monitor_log pm \<noteq> alerts_log a"
proof -
  show "alerts_log a \<noteq> process_monitor_log pm"
    unfolding alerts_log_def process_monitor_log_def
    by (rule path_join_neq) (simp_all add: suffix_to_prefix)
  then show "process_monitor_log pm \<noteq> alerts_log a" by (rule not_sym)
qed

lemma log_process_event_ok:
  "sinks_work e \<Longrightarrow> log_process_event e pm stamp ty m w =
     (None, w @ [Append (process_monitor_log pm) (''['' @ stamp @ ''] '' @ ty @ '': '' @ m)])"
  by (simp add: log_process_event_def append_line_def sinks_work_def)

lemma contains_any_iff: "contains_any ss n \<longleftrightarrow> (\<exists>s\<in>set ss. sublist s n)"
  by (induction ss) auto

lemma new_process_step_known:
  "p_pid p \<in> known_processes pm \<Longrightarrow>
     new_process_step pm e stamp p s = (None, insert (p_pid p) (fst s), snd s)"
  by (simp add: new_process_step_def)

lemma new_process_step_plain:
  "sinks_work e \<Longrightarrow> p_pid p \<notin> known_processes pm \<Longrightarrow> p_name p = Some n \<Longrightarrow>
   \<not> is_suspicious_name pm n \<Longrightarrow>
     new_process_step pm e stamp p s =
       (None, insert (p_pid p) (fst s),
        snd s @ [Append (process_monitor_log pm)
                   (''['' @ stamp @ ''] '' @ ''NEW_PROCESS'' @ '': '' @ new_process_message p)])"
  by (simp add: new_process_step_def log_process_event_ok)

lemma new_process_step_alert:
  "sinks_work e \<Longrightarrow> p_pid p \<notin> known_processes pm \<Longrightarrow> p_name p = Some n \<Longrightarrow>
   is_suspicious_name pm n \<Longrightarrow>
     new_process_step pm e stamp p s =
       (None, insert (p_pid p) (fst s),
        snd (send_alert (pm_alert_system pm) e stamp (suspicious_message p) ''SUSPICIOUS_PROCESS'' True True
          (snd s @ [Append (process_monitor_log pm)
                      (''['' @ stamp @ ''] '' @ ''NEW_PROCESS'' @ '': '' @ new_process_message p)])))"
  by (simp add: new_process_step_def log_process_event_ok send_alert_ok Let_def)

lemma new_process_step_obs:
  assumes ok: "sinks_work e" and nm: "p_pid p \<notin> known_processes pm \<longrightarrow> p_name p \<noteq> None"
  shows "fst (new_process_step pm e stamp p s) = None"
    and "fst (snd (new_process_step pm e stamp p s)) = insert (p_pid p) (fst s)"
    and "file_lines (alerts_log (pm_alert_system pm)) (snd (snd (new_process_step pm e stamp p s))) =
           file_lines (alerts_log (pm_alert_system pm)) (snd s)
           @ (if newly_suspicious pm p then [suspicious_line stamp p] else [])"
    and "file_lines (process_monitor_log pm) (snd (snd (new_process_step pm e stamp p s))) =
           file_lines (process_monitor_log pm) (snd s)
           @ (if p_pid p \<notin> known_processes pm
              then [''['' @ stamp @ ''] NEW_PROCESS: '' @ new_process_message p] else [])"
    and "length (bells (snd s)) + (if newly_suspicious pm p then 1 else 0)
           \<le> length (bells (snd (snd (new_process_step pm e stamp p s))))"
proof -
  consider (known) "p_pid p \<in> known_processes pm"
    | (plain) n where "p_pid p \<notin> known_processes pm" "p_name p = Some n" "\<not> is_suspicious_name pm n"
    | (alert) n where "p_pid p \<notin> known_processes pm" "p_name p = Some n" "is_suspicious_name pm n"
    using nm by (cases "p_name p") auto
  then have "fst (new_process_step pm e stamp p s) = None
    \<and> fst (snd (new_process_step pm e stamp p s)) = insert (p_pid p) (fst s)
    \<and> file_lines (alerts_log (pm_alert_system pm)) (snd (snd (new_process_step pm e stamp p s))) =
           file_lines (alerts_log (pm_alert_system pm)) (snd s)
           @ (if newly_suspicious pm p then [suspicious_line stamp p] else [])
    \<and> file_lines (process_monitor_log pm) (snd (snd (new_process_step pm e stamp p s))) =
           file_lines (process_monitor_log pm) (snd s)
           @ (if p_pid p \<notin> known_processes pm
              then [''['' @ stamp @ ''] NEW_PROCESS: '' @ new_process_message p] else [])
    \<and> length (bells (snd s)) + (if newly_suspicious pm p then 1 else 0)
           \<le> length (bells (snd (snd (new_process_step pm e stamp p s))))"
  proof cases
    case known
    then show ?thesis
      by (simp add: new_process_step_known newly_suspicious_def)
  next
    case plain
    then show ?thesis
      by (simp add: new_process_step_plain[OF ok] newly_suspicious_def)
  next
    case alert
    let ?w1 = "snd s @ [Append (process_monitor_log pm)
                   (''['' @ stamp @ ''] '' @ ''NEW_PROCESS'' @ '': '' @ new_process_message p)]"
    note b = send_alert_bells(1)[of True ?w1 "pm_alert_system pm" e stamp "suspicious_message p"
      "''SUSPICIOUS_PROCESS''" True]
    have b': "bells ?w1 = bells (snd s)" by simp
    from alert b show ?thesis
      unfolding new_process_step_alert[OF ok alert] b'
      by (simp add: newly_suspicious_def suspicious_line_def send_alert_file_lines send_alert_ok[OF ok])
  qed
  then show "fst (new_process_step pm e stamp p s) = None"
    and "fst (snd (new_process_step pm e stamp p s)) = insert (p_pid p) (fst s)"
    and "file_lines (alerts_log (pm_alert_system pm)) (snd (snd (new_process_step pm e stamp p s))) =
           file_lines (alerts_log (pm_alert_system pm)) (snd s)
           @ (if newly_suspicious pm p then [suspicious_line stamp p] else [])"
    and "file_lines (process_monitor_log pm) (snd (snd (new_process_step pm e stamp p s))) =
           file_lines (process_monitor_log pm) (snd s)
           @ (if p_pid p \<notin> known_processes pm
              then [''['' @ stamp @ ''] NEW_PROCESS: '' @ new_process_message p] else [])"
    and "length (bells (snd s)) + (if newly_suspicious pm p then 1 else 0)
           \<le> length (bells (snd (snd (new_process_step pm e stamp p s))))"
    by blast+
qed

lemma configured_names:
  "suspicious_names (ProcessMonitor_init d) =
        [''nc'', ''netcat'', ''nmap'', ''masscan'', ''hping'',
         ''metasploit'', ''msfconsole'', ''armitage'',
         ''mimikatz'', ''procdump'', ''pwdump'',
         ''keylogger'', ''logger'',
         ''cryptominer'', ''xmrig'', ''minergate'',
         ''backdoor'', ''trojan'', ''rootkit'']"
  by (simp add: ProcessMonitor_init_def)

lemma lower_char_N: "lower_char CHR ''N'' = CHR ''n''"
  by (simp add: lower_char_def char_of_def bit_Suc_0_iff)

lemma lower_nmap: "lower ''Nmap'' = ''nmap''"
  by (simp add: lower_def lower_char_N) (simp add: lower_char_def)

lemma nmap_suspicious: "is_suspicious_name (ProcessMonitor_init d) ''Nmap''"
  unfolding is_suspicious_name_def configured_names lower_nmap
  by (simp add: sublist_code(3))

lemma lower_sshd: "lower ''sshd'' = ''sshd''"
  by (simp add: lower_def lower_char_def)

lemma sshd_not_suspicious: "\<not> is_suspicious_name (ProcessMonitor_init d) ''sshd''"
  unfolding is_suspicious_name_def configured_names lower_sshd
  by (simp add: sublist_code(3))


lemma lower_char_small:
  "c \<in> set ''abcdefghijklmnopqrstuvwxyz'' \<Longrightarrow> lower_char c = c"
  by (auto simp: lower_char_def)

lemma lower_small: "set s \<subseteq> set ''abcdefghijklmnopqrstuvwxyz'' \<Longrightarrow> lower s = s"
  unfolding lower_def by (rule map_idI) (auto simp: lower_char_small simp del: set_simps)

lemma configured_lowercase: "\<forall>x\<in>set (suspicious_names (ProcessMonitor_init d)). lower x = x"
  unfolding configured_names by (auto intro!: lower_small)


lemma new_process_loop:
  assumes ok: "sinks_work e"
    and nm: "\<forall>p\<in>set ps. p_pid p \<notin> known_processes pm \<longrightarrow> p_name p \<noteq> None"
  shows "fst (for_each (new_process_step pm e stamp) ps s) = None
     \<and> fst (snd (for_each (new_process_step pm e stamp) ps s)) = fst s \<union> p_pid ` set ps
     \<and> file_lines (alerts_log (pm_alert_system pm)) (snd (snd (for_each (new_process_step pm e stamp) ps s))) =
         file_lines (alerts_log (pm_alert_system pm)) (snd s)
         @ map (suspicious_line stamp) (filter (newly_suspicious pm) ps)
     \<and> file_lines (process_monitor_log pm) (snd (snd (for_each (new_process_step pm e stamp) ps s))) =
         file_lines (process_monitor_log pm) (snd s)
         @ map (\<lambda>p. ''['' @ stamp @ ''] NEW_PROCESS: '' @ new_process_message p)
             (filter (\<lambda>p. p_pid p \<notin> known_processes pm) ps)
     \<and> length (bells (snd s)) + length (filter (newly_suspicious pm) ps)
         \<le> length (bells (snd (snd (for_each (new_process_step pm e stamp) ps s))))"
  using nm
proof (induction ps arbitrary: s)
  case Nil
  show ?case by (simp add: for_each_Nil)
next
  case (Cons p ps)
  let ?r = "new_process_step pm e stamp p s"
  from Cons.prems have np: "p_pid p \<notin> known_processes pm \<longrightarrow> p_name p \<noteq> None"
    and rest: "\<forall>p\<in>set ps. p_pid p \<notin> known_processes pm \<longrightarrow> p_name p \<noteq> None"
    by simp_all
  note o = new_process_step_obs[OF ok np, where stamp=stamp and s=s]
  have step: "for_each (new_process_step pm e stamp) (p # ps) s =
      for_each (new_process_step pm e stamp) ps (snd ?r)"
    using o(1) by (rule for_each_step)
  let ?z = "for_each (new_process_step pm e stamp) ps (snd ?r)"
  note ih = Cons.IH[OF rest, of "snd ?r"]
  from ih have a1: "fst ?z = None" by (rule conjunct1)
  from ih have a2: "fst (snd ?z) = fst (snd ?r) \<union> p_pid ` set ps"
    by (rule conjunct2[THEN conjunct1])
  from ih have a3: "file_lines (alerts_log (pm_alert_system pm)) (snd (snd ?z)) =
         file_lines (alerts_log (pm_alert_system pm)) (snd (snd ?r))
         @ map (suspicious_line stamp) (filter (newly_suspicious pm) ps)"
    by (rule conjunct2[THEN conjunct2, THEN conjunct1])
  from ih have a4: "file_lines (process_monitor_log pm) (snd (snd ?z)) =
         file_lines (process_monitor_log pm) (snd (snd ?r))
         @ map (\<lambda>p. ''['' @ stamp @ ''] NEW_PROCESS: '' @ new_process_message p)
             (filter (\<lambda>p. p_pid p \<notin> known_processes pm) ps)"
    by (rule conjunct2[THEN conjunct2, THEN conjunct2, THEN conjunct1])
  from ih have a5: "length (bells (snd (snd ?r))) + length (filter (newly_suspicious pm) ps)
         \<le> length (bells (snd (snd ?z)))"
    by (rule conjunct2[THEN conjunct2, THEN conjunct2, THEN conjunct2])
  have b: "length (bells (snd s)) + length (filter (newly_suspicious pm) (p # ps))
         \<le> length (bells (snd (snd ?z)))"
    using a5 o(5) by (cases "newly_suspicious pm p") simp_all
  have c1: "fst (snd ?z) = fst s \<union> p_pid ` set (p # ps)"
    unfolding a2 o(2) by simp
  have c2: "file_lines (alerts_log (pm_alert_system pm)) (snd (snd ?z)) =
         file_lines (alerts_log (pm_alert_system pm)) (snd s)
         @ map (suspicious_line stamp) (filter (newly_suspicious pm) (p # ps))"
    unfolding a3 o(3) by simp
  have c3: "file_lines (process_monitor_log pm) (snd (snd ?z)) =
         file_lines (process_monitor_log pm) (snd s)
         @ map (\<lambda>p. ''['' @ stamp @ ''] NEW_PROCESS: '' @ new_process_message p)
             (filter (\<lambda>p. p_pid p \<notin> known_processes pm) (p # ps))"
    unfolding a4 o(4) by simp
  from a1 c1 c2 c3 b show ?case
    unfolding step by (intro conjI)
qed

lemma process_logs_update [simp]:
  "alerts_log (pm_alert_system (pm\<lparr>known_processes := k\<rparr>)) = alerts_log (pm_alert_system pm)"
  "process_monitor_log (pm\<lparr>known_processes := k\<rparr>) = process_monitor_log pm"
  "process_monitor_log (pm\<lparr>high_resource_tracker := t\<rparr>) = process_monitor_log pm"
  by (simp_all add: process_monitor_log_def)

lemma check_new_processes_obs:
  assumes ok: "sinks_work e"
    and nm: "\<forall>p\<in>set ps. p_pid p \<notin> known_processes (fst s) \<longrightarrow> p_name p \<noteq> None"
  shows "fst (check_new_processes e stamp ps s) = None"
    and "fst (snd (check_new_processes e stamp ps s)) = (fst s)\<lparr>known_processes := p_pid ` set ps\<rparr>"
    and "process_alerts (snd (check_new_processes e stamp ps s)) =
           process_alerts s @ map (suspicious_line stamp) (filter (newly_suspicious (fst s)) ps)"
    and "process_events (snd (check_new_processes e stamp ps s)) =
           process_events s
           @ map (\<lambda>p. ''['' @ stamp @ ''] NEW_PROCESS: '' @ new_process_message p)
               (filter (\<lambda>p. p_pid p \<notin> known_processes (fst s)) ps)"
    and "length (bells (snd s)) + length (filter (newly_suspicious (fst s)) ps)
           \<le> length (bells (snd (snd (check_new_processes e stamp ps s))))"
  using new_process_loop[OF ok nm, where stamp=stamp and s="({}, snd s)"]
  by (simp_all add: check_new_processes_def Let_def process_alerts_def process_events_def)

lemma watch_run:
  assumes ok: "sinks_work e"
    and nm: "\<forall>t\<in>set scans. \<forall>p\<in>set (snd t). p_name p \<noteq> None"
  shows "fst (watch e scans s) = None
     \<and> process_alerts (snd (watch e scans s)) = process_alerts s @ expected_alerts (fst s) scans"
  using nm
proof (induction scans arbitrary: s)
  case Nil
  show ?case by (simp add: watch_def for_each_Nil)
next
  case (Cons t ts)
  let ?r = "check_new_processes e (fst t) (snd t) s"
  from Cons.prems have nt: "\<forall>p\<in>set (snd t). p_pid p \<notin> known_processes (fst s) \<longrightarrow> p_name p \<noteq> None"
    and rest: "\<forall>t\<in>set ts. \<forall>p\<in>set (snd t). p_name p \<noteq> None"
    by simp_all
  note o = check_new_processes_obs[OF ok nt]
  have step: "watch e (t # ts) s = watch e ts (snd ?r)"
    unfolding watch_def using o(1) by (simp add: for_each_step)
  from Cons.IH[OF rest, of "snd ?r"] show ?case
    unfolding step by (simp add: o(2,3))
qed

lemma one_entry_per_pid:
  assumes "distinct (map p_pid ps)" "p \<in> set ps"
  shows "length (filter (\<lambda>q. p_pid q = p_pid p) (filter P ps)) = (if P p then 1 else 0)"
  using assms
proof (induction ps)
  case Nil
  then show ?case by simp
next
  case (Cons a ps)
  show ?case
  proof (cases "a = p")
    case True
    with Cons.prems(1) have "\<forall>q\<in>set ps. p_pid q \<noteq> p_pid p" by (auto simp: image_iff)
    then have "filter (\<lambda>q. p_pid q = p_pid p) (filter P ps) = []"
      by (simp add: filter_empty_conv)
    with True show ?thesis by simp
  next
    case False
    with Cons.prems have in_ps: "p \<in> set ps" and ne: "p_pid a \<noteq> p_pid p"
      and d: "distinct (map p_pid ps)" by auto
    from Cons.IH[OF d in_ps] ne show ?thesis by auto
  qed
qed

lemma is_suspicious_name_known [simp]:
  "is_suspicious_name (pm\<lparr>known_processes := k\<rparr>) n = is_suspicious_name pm n"
  by (simp add: is_suspicious_name_def)

lemma nmap_line:
  "suspicious_line stamp (proc 4242 ''Nmap'' 0 0) =
     ''['' @ stamp @ ''] [SUSPICIOUS_PROCESS] SUSPICIOUS PROCESS DETECTED | Name: Nmap | PID: 4242 | User: root | Command: Nmap''"
  by (simp add: suspicious_line_def alert_line_def suspicious_message_def proc_def str_opt_def
      cmdline_of_def str_nat.simps digit_char_def char_of_def bit_Suc_0_iff)

lemma newly_suspicious_examples:
  "newly_suspicious ((ProcessMonitor_init d)\<lparr>known_processes := k\<rparr>) (proc n ''Nmap'' c m) \<longleftrightarrow> n \<notin> k"
  "\<not> newly_suspicious ((ProcessMonitor_init d)\<lparr>known_processes := k\<rparr>) (proc n ''sshd'' c m)"
  by (simp_all add: newly_suspicious_def proc_def nmap_suspicious sshd_not_suspicious)

lemma four_scans_expected:
  "expected_alerts (fst after_first_scan) four_scans =
     [suspicious_line ''2025-01-01 12:00:05'' (proc 4242 ''Nmap'' 0 0),
      suspicious_line ''2025-01-01 12:00:20'' (proc 4242 ''Nmap'' 0 0)]"
  by (simp add: after_first_scan_def four_scans_def newly_suspicious_examples)
     (simp add: proc_def)


text \<open>
  C6.  The terminal and the log files accept their writes, every new process of the
  scan has a name, and the pids of the scan are pairwise distinct.  Then
  \<open>check_new_processes\<close> returns normally, \<open>known_processes\<close> becomes the pid set of
  the scan, and the alerts written are, in the order of the scan, one
  SUSPICIOUS\_PROCESS alert for each process whose pid was not known (not in the pid set
  of the previous tick) and whose name, in lower case, contains a configured substring:
  exactly one for such a process, none for any other, each with a bell attempted.  No
  process of this scan is alerted on by the next tick, so a process alerts again only
  after a tick at which its pid was absent.  Over a run of ticks the alerts are those
  of \<open>expected_alerts\<close>, which compares each scan with the pid set of the scan before.
  The configured substrings being in lower case, the match is containment regardless of
  case.
\<close>

theorem suspicious_process_alerted_once_when_new:
  assumes "sinks_work e"
    and "\<forall>p\<in>set ps. p_pid p \<notin> known_processes (fst s) \<longrightarrow> p_name p \<noteq> None"
    and "distinct (map p_pid ps)"
    and "\<forall>t\<in>set scans. \<forall>p\<in>set (snd t). p_name p \<noteq> None"
  shows
   "fst (check_new_processes e stamp ps s) = None
    \<and> fst (snd (check_new_processes e stamp ps s)) = (fst s)\<lparr>known_processes := p_pid ` set ps\<rparr>
    \<and> process_alerts (snd (check_new_processes e stamp ps s)) =
        process_alerts s @ map (suspicious_line stamp) (filter (newly_suspicious (fst s)) ps)
    \<and> (\<forall>p\<in>set ps.
          length (filter (\<lambda>q. p_pid q = p_pid p) (filter (newly_suspicious (fst s)) ps)) =
            (if newly_suspicious (fst s) p then 1 else 0))
    \<and> length (bells (snd s)) + length (filter (newly_suspicious (fst s)) ps)
        \<le> length (bells (snd (snd (check_new_processes e stamp ps s))))
    \<and> (\<forall>p\<in>set ps. \<not> newly_suspicious (fst (snd (check_new_processes e stamp ps s))) p)
    \<and> fst (watch e scans s) = None
    \<and> process_alerts (snd (watch e scans s)) = process_alerts s @ expected_alerts (fst s) scans
    \<and> (\<forall>p. newly_suspicious (fst s) p \<longleftrightarrow>
          p_pid p \<notin> known_processes (fst s)
          \<and> (\<exists>name. p_name p = Some name
                \<and> (\<exists>x\<in>set (suspicious_names (fst s)). sublist x (lower name))))
    \<and> ((\<forall>x\<in>set (suspicious_names (fst s)). lower x = x) \<longrightarrow>
         (\<forall>name. is_suspicious_name (fst s) name \<longleftrightarrow>
            (\<exists>x\<in>set (suspicious_names (fst s)). sublist (lower x) (lower name))))"
proof -
  note o = check_new_processes_obs[OF assms(1,2), where stamp=stamp]
  have cnt: "\<forall>p\<in>set ps.
          length (filter (\<lambda>q. p_pid q = p_pid p) (filter (newly_suspicious (fst s)) ps)) =
            (if newly_suspicious (fst s) p then 1 else 0)"
    using one_entry_per_pid[OF assms(3)] by blast
  have later: "\<forall>p\<in>set ps. \<not> newly_suspicious (fst (snd (check_new_processes e stamp ps s))) p"
    unfolding o(2) by (simp add: newly_suspicious_def)
  have char: "\<forall>p. newly_suspicious (fst s) p \<longleftrightarrow>
          p_pid p \<notin> known_processes (fst s)
          \<and> (\<exists>name. p_name p = Some name
                \<and> (\<exists>x\<in>set (suspicious_names (fst s)). sublist x (lower name)))"
    by (auto simp: newly_suspicious_def is_suspicious_name_def contains_any_iff split: option.splits)
  have ci: "(\<forall>x\<in>set (suspicious_names (fst s)). lower x = x) \<longrightarrow>
         (\<forall>name. is_suspicious_name (fst s) name \<longleftrightarrow>
            (\<exists>x\<in>set (suspicious_names (fst s)). sublist (lower x) (lower name)))"
    by (simp add: is_suspicious_name_def contains_any_iff)
  note w = watch_run[OF assms(1,4), of s]
  from o(1) o(2) o(3) cnt o(5) later w char ci show ?thesis
    by (intro conjI) blast+
qed

theorem suspicious_process_alerted_once_when_new_witness:
  "sinks_work healthy
   \<and> distinct (map p_pid [proc 1 ''sshd'' 0 0, proc 4242 ''Nmap'' 0 0])
   \<and> fst (check_new_processes healthy ''2025-01-01 12:00:05''
        [proc 1 ''sshd'' 0 0, proc 4242 ''Nmap'' 0 0] after_first_scan) = None
   \<and> process_alerts (snd (check_new_processes healthy ''2025-01-01 12:00:05''
        [proc 1 ''sshd'' 0 0, proc 4242 ''Nmap'' 0 0] after_first_scan)) =
       [''[2025-01-01 12:00:05] [SUSPICIOUS_PROCESS] SUSPICIOUS PROCESS DETECTED | Name: Nmap | PID: 4242 | User: root | Command: Nmap'']
   \<and> 1 \<le> length (bells (snd (snd (check_new_processes healthy ''2025-01-01 12:00:05''
        [proc 1 ''sshd'' 0 0, proc 4242 ''Nmap'' 0 0] after_first_scan))))
   \<and> process_alerts (snd (watch healthy four_scans after_first_scan)) =
       [''[2025-01-01 12:00:05] [SUSPICIOUS_PROCESS] SUSPICIOUS PROCESS DETECTED | Name: Nmap | PID: 4242 | User: root | Command: Nmap'',
        ''[2025-01-01 12:00:20] [SUSPICIOUS_PROCESS] SUSPICIOUS PROCESS DETECTED | Name: Nmap | PID: 4242 | User: root | Command: Nmap'']
   \<and> is_suspicious_name (fst after_first_scan) ''Nmap''"
proof -
  let ?ps = "[proc 1 ''sshd'' 0 0, proc 4242 ''Nmap'' 0 0]"
  have ok: "sinks_work healthy" by (rule sinks_work_examples(1))
  have nm: "\<forall>p\<in>set ?ps. p_pid p \<notin> known_processes (fst after_first_scan) \<longrightarrow> p_name p \<noteq> None"
    by (simp add: proc_def)
  have di: "distinct (map p_pid ?ps)" by (simp add: proc_def)
  have sc: "\<forall>t\<in>set four_scans. \<forall>p\<in>set (snd t). p_name p \<noteq> None"
    by (simp add: four_scans_def proc_def)
  note t = suspicious_process_alerted_once_when_new[OF ok nm di sc, where stamp="''2025-01-01 12:00:05''"]
  have e0: "process_alerts after_first_scan = []"
    by (simp add: process_alerts_def after_first_scan_def)
  have b0: "bells (snd after_first_scan) = []" by (simp add: after_first_scan_def)
  have f: "filter (newly_suspicious (fst after_first_scan)) ?ps = [proc 4242 ''Nmap'' 0 0]"
    by (simp add: after_first_scan_def newly_suspicious_examples)
  from t have 1: "fst (check_new_processes healthy ''2025-01-01 12:00:05'' ?ps after_first_scan) = None"
    by (rule conjunct1)
  from t have 2: "process_alerts (snd (check_new_processes healthy ''2025-01-01 12:00:05'' ?ps after_first_scan)) =
      process_alerts after_first_scan
      @ map (suspicious_line ''2025-01-01 12:00:05'') (filter (newly_suspicious (fst after_first_scan)) ?ps)"
    by (rule conjunct2[THEN conjunct2, THEN conjunct1])
  from t have 3: "length (bells (snd after_first_scan))
      + length (filter (newly_suspicious (fst after_first_scan)) ?ps)
      \<le> length (bells (snd (snd (check_new_processes healthy ''2025-01-01 12:00:05'' ?ps after_first_scan))))"
    by (rule conjunct2[THEN conjunct2, THEN conjunct2, THEN conjunct2, THEN conjunct1])
  from t have 4: "process_alerts (snd (watch healthy four_scans after_first_scan)) =
      process_alerts after_first_scan @ expected_alerts (fst after_first_scan) four_scans"
    by (rule conjunct2[THEN conjunct2, THEN conjunct2, THEN conjunct2, THEN conjunct2,
          THEN conjunct2, THEN conjunct2, THEN conjunct1])
  have A: "process_alerts (snd (check_new_processes healthy ''2025-01-01 12:00:05'' ?ps after_first_scan)) =
       [''[2025-01-01 12:00:05] [SUSPICIOUS_PROCESS] SUSPICIOUS PROCESS DETECTED | Name: Nmap | PID: 4242 | User: root | Command: Nmap'']"
    unfolding 2 e0 f by (simp add: nmap_line)
  have B: "1 \<le> length (bells (snd (snd (check_new_processes healthy ''2025-01-01 12:00:05'' ?ps after_first_scan))))"
    using 3 unfolding b0 f by simp
  have C: "process_alerts (snd (watch healthy four_scans after_first_scan)) =
       [''[2025-01-01 12:00:05] [SUSPICIOUS_PROCESS] SUSPICIOUS PROCESS DETECTED | Name: Nmap | PID: 4242 | User: root | Command: Nmap'',
        ''[2025-01-01 12:00:20] [SUSPICIOUS_PROCESS] SUSPICIOUS PROCESS DETECTED | Name: Nmap | PID: 4242 | User: root | Command: Nmap'']"
    unfolding 4 e0 four_scans_expected by (simp add: nmap_line)
  have D: "is_suspicious_name (fst after_first_scan) ''Nmap''"
    by (simp add: after_first_scan_def nmap_suspicious)
  from ok di 1 A B C D show ?thesis by (intro conjI)
qed

end
